theory Spec2Isabelle
  imports Main "HOL-Library.Word"
begin

section \<open>Data model of the button driver\<close>

text \<open>
  The driver of \<^verbatim>\<open>src/button_module/button.c\<close> and its header (the variant that declares
  \<^verbatim>\<open>button_interrupt_mode_t\<close>, which \<^verbatim>\<open>button.c\<close> switches on). Machine integers are
  words of their width, so \<open>+\<close>, \<open>-\<close> and \<open>*\<close> wrap around and \<open><\<close> compares unsigned.
  \<^verbatim>\<open>int32_t\<close> values are only ever compared for equality with 0 and 1, so they are kept as
  32-bit words as well.
\<close>

type_synonym u8 = "8 word"
type_synonym u32 = "32 word"
type_synonym s32 = "32 word"

datatype button_pressed_types_t =
  BUTTON_NORMAL_PRESS | BUTTON_LONG_PRESS | BUTTON_DOUBLE_PRESS

datatype button_interrupt_mode_t =
  BUTTON_INTERRUPT_MODE_NONE
  | BUTTON_INTERRUPT_MODE_RISING_EDGE
  | BUTTON_INTERRUPT_MODE_FALLING_EDGE
  | BUTTON_INTERRUPT_MODE_BOTH_EDGES

text \<open>The enumerators' integer values, for the comparison \<^verbatim>\<open>interrupt_mode > BUTTON_INTERRUPT_MODE_NONE\<close>.\<close>

fun mode_value :: "button_interrupt_mode_t \<Rightarrow> nat" where
  "mode_value BUTTON_INTERRUPT_MODE_NONE = 0"
| "mode_value BUTTON_INTERRUPT_MODE_RISING_EDGE = 1"
| "mode_value BUTTON_INTERRUPT_MODE_FALLING_EDGE = 2"
| "mode_value BUTTON_INTERRUPT_MODE_BOTH_EDGES = 3"

datatype init_status_t = FAIL | SUCCESS

text \<open>\<^verbatim>\<open>BUTTON_MAX\<close>, the last enumerator of \<^verbatim>\<open>button_enum\<close>: the size of every per-line array.\<close>

definition BUTTON_MAX :: nat where
  "BUTTON_MAX = 5"

definition DETECT_SINGLE_BUTTON_PRESS_IN_US :: u32 where
  "DETECT_SINGLE_BUTTON_PRESS_IN_US = 500000"

record pin_config_t =
  pin :: u8
  interrupt_mode :: button_interrupt_mode_t
  p_reg :: "nat option"

text \<open>
  \<^verbatim>\<open>button_api_t\<close>. A function pointer is an option (\<open>None\<close> is \<^verbatim>\<open>NULL\<close>) of a function over
  the state \<open>'w\<close> of the platform, which the driver never looks into: reading the tick and
  the pin level return a value and the platform's next state, the event callback changes
  the platform's state. \<^verbatim>\<open>button_pins\<close> is an array of \<^verbatim>\<open>BUTTON_MAX\<close> entries, read by index;
  the functions below stop with \<open>IndexOutOfBounds\<close> where the C code would index past it.
\<close>

record 'w button_api_t =
  button_pins :: "nat \<Rightarrow> pin_config_t"
  size_of_buttons :: u8
  active_high :: u8
  tick_count_in_1us :: u32
  debounce_us :: u32
  long_press_us :: u32
  fp_tick_elapsed :: "(u32 \<Rightarrow> u32 \<Rightarrow> u32) option"
  fp_read_button :: "(pin_config_t \<Rightarrow> 'w \<Rightarrow> s32 \<times> 'w) option"
  fp_get_current_tick :: "('w \<Rightarrow> u32 \<times> 'w) option"
  fp_event_callback :: "(button_pressed_types_t \<Rightarrow> nat \<Rightarrow> 'w \<Rightarrow> 'w) option"

record detection_pressed_tick_t =
  first :: u32
  last_tick :: u32

text \<open>
  The file-scope and function-scope statics of \<^verbatim>\<open>button.c\<close>. \<open>p_api\<close> holds the
  configuration the stored pointer points to (\<open>None\<close> for \<^verbatim>\<open>NULL\<close>); nobody writes to that
  configuration once it is handed over. The arrays of \<^verbatim>\<open>BUTTON_MAX\<close> entries are functions
  of the index, read and written below \<^verbatim>\<open>BUTTON_MAX\<close> only. \<open>dispatched\<close> is not a variable
  of the code: it lists, in order, the calls made to \<^verbatim>\<open>fp_event_callback\<close>.
\<close>

record 'w driver =
  p_api :: "'w button_api_t option"
  button_init_status :: init_status_t
  pressed_tick :: "nat \<Rightarrow> detection_pressed_tick_t"
  check_last_tick :: u32
  record_last_tick :: "nat \<Rightarrow> u32"
  press_count :: "nat \<Rightarrow> u8"
  dispatched :: "(button_pressed_types_t \<times> nat) list"

definition initial_driver :: "'w driver" where
  "initial_driver =
    \<lparr>p_api = None, button_init_status = FAIL,
     pressed_tick = (\<lambda>_. \<lparr>first = 0, last_tick = 0\<rparr>),
     check_last_tick = 0, record_last_tick = (\<lambda>_. 0), press_count = (\<lambda>_. 0),
     dispatched = []\<rparr>"

text \<open>What C leaves undefined is a value of the model: a call through a \<^verbatim>\<open>NULL\<close> function
  pointer, a read through a \<^verbatim>\<open>NULL\<close> \<^verbatim>\<open>p_api\<close>, an index past \<^verbatim>\<open>BUTTON_MAX\<close>.\<close>

datatype fault = NullFunctionPointer | NullApi | IndexOutOfBounds

section \<open>Tick arithmetic of the example application\<close>

text \<open>\<^verbatim>\<open>tick_elapsed\<close> of \<^verbatim>\<open>src/unnamed/part_000\<close>, with \<^verbatim>\<open>UINT32_MAX\<close> the word \<open>- 1\<close>.\<close>

definition UINT32_MAX :: u32 where
  "UINT32_MAX = - 1"

definition tick_elapsed :: "u32 \<Rightarrow> u32 \<Rightarrow> u32" where
  "tick_elapsed start end' =
    (if end' > start then end' - start else (UINT32_MAX - start) + end')"

section \<open>The driver\<close>

text \<open>
  The static functions of \<^verbatim>\<open>button.c\<close> read the configuration through \<^verbatim>\<open>p_api\<close>. Here they
  take it as their argument \<open>a\<close>; \<^verbatim>\<open>button_isr\<close> and \<^verbatim>\<open>button_process\<close>, which call them,
  read \<open>p_api\<close> of the driver. Every function returns what it leaves behind: the driver
  and the platform, or the fault it stops with.
\<close>

text \<open>The macro \<^verbatim>\<open>TICK_DIFF(tick)\<close>: one read of the tick source, then \<^verbatim>\<open>fp_tick_elapsed\<close>.\<close>

definition TICK_DIFF :: "'w button_api_t \<Rightarrow> u32 \<Rightarrow> 'w \<Rightarrow> fault + (u32 \<times> 'w)" where
  "TICK_DIFF a tick w =
    (case fp_get_current_tick a of
       None \<Rightarrow> Inl NullFunctionPointer
     | Some now \<Rightarrow>
        (case fp_tick_elapsed a of
           None \<Rightarrow> Inl NullFunctionPointer
         | Some el \<Rightarrow> (case now w of (t, w') \<Rightarrow> Inr (el tick t, w'))))"

text \<open>
  \<^verbatim>\<open>find_pin_id\<close>: the loop \<^verbatim>\<open>while (i <= p_api->size_of_buttons-1)\<close> from \<open>i\<close> on; the
  comparison is on C \<^verbatim>\<open>int\<close>s. \<open>None\<close> is the result \<open>-1\<close>. The argument \<open>a\<close> is \<^verbatim>\<open>*p_api\<close>.
\<close>

function find_pin_id_from :: "'w button_api_t \<Rightarrow> u8 \<Rightarrow> nat \<Rightarrow> fault + nat option" where
  "find_pin_id_from a p i =
    (if int i \<le> int (unat (size_of_buttons a)) - 1 then
       (if BUTTON_MAX \<le> i then Inl IndexOutOfBounds
        else if pin (button_pins a i) = p then Inr (Some i)
        else find_pin_id_from a p (i + 1))
     else Inr None)"
  by pat_completeness auto
termination
  by (relation "measure (\<lambda>(a, p, i). BUTTON_MAX - i)") auto

definition find_pin_id :: "'w button_api_t \<Rightarrow> u8 \<Rightarrow> fault + nat option" where
  "find_pin_id a p = find_pin_id_from a p 0"

text \<open>Both timestamps of a line set to 0, as the two assignments of \<^verbatim>\<open>detect_the_press\<close> do.\<close>

definition clear_ticks :: "nat \<Rightarrow> 'w driver \<Rightarrow> 'w driver" where
  "clear_ticks index s =
    s\<lparr>pressed_tick := (pressed_tick s)(index := \<lparr>first = 0, last_tick = 0\<rparr>)\<rparr>"

text \<open>
  \<^verbatim>\<open>detect_the_press(index, p_count)\<close>. The counter behind \<^verbatim>\<open>p_count\<close> goes in as \<open>count\<close> and
  comes back in the result, which is (the returned \<^verbatim>\<open>last_count_tick\<close>, the counter, the
  driver, the platform). Each \<^verbatim>\<open>TICK_DIFF\<close> and the final \<^verbatim>\<open>fp_get_current_tick()\<close> is a read
  of its own.
\<close>

definition detect_the_press ::
  "'w button_api_t \<Rightarrow> nat \<Rightarrow> u8 \<Rightarrow> 'w driver \<Rightarrow> 'w \<Rightarrow> fault + (u32 \<times> u8 \<times> 'w driver \<times> 'w)" where
  "detect_the_press a index count s w =
    (if BUTTON_MAX \<le> index then Inl IndexOutOfBounds
     else if first (pressed_tick s index) \<noteq> 0 \<and> last_tick (pressed_tick s index) \<noteq> 0 then
       (case TICK_DIFF a (last_tick (pressed_tick s index)) w of
          Inl e \<Rightarrow> Inl e
        | Inr (d1, w1) \<Rightarrow>
           if d1 > debounce_us a * tick_count_in_1us a then
             (case fp_tick_elapsed a of
                None \<Rightarrow> Inl NullFunctionPointer
              | Some el \<Rightarrow>
                 if el (first (pressed_tick s index)) (last_tick (pressed_tick s index))
                      > long_press_us a * tick_count_in_1us a
                 then
                   (case fp_event_callback a of
                      None \<Rightarrow> Inl NullFunctionPointer
                    | Some cb \<Rightarrow>
                       Inr (0, count,
                            clear_ticks index
                              (s\<lparr>dispatched := dispatched s @ [(BUTTON_LONG_PRESS, index)]\<rparr>),
                            cb BUTTON_LONG_PRESS index w1))
                 else
                   (case TICK_DIFF a (last_tick (pressed_tick s index)) w1 of
                      Inl e \<Rightarrow> Inl e
                    | Inr (d2, w2) \<Rightarrow>
                       if d2 < DETECT_SINGLE_BUTTON_PRESS_IN_US * tick_count_in_1us a then
                         (case fp_get_current_tick a of
                            None \<Rightarrow> Inl NullFunctionPointer
                          | Some now \<Rightarrow>
                             (case now w2 of
                                (t3, w3) \<Rightarrow> Inr (t3, count + 1, clear_ticks index s, w3)))
                       else Inr (0, count, s, w2)))
           else Inr (0, count, s, w1))
     else Inr (0, count, s, w))"

text \<open>
  The second half of \<^verbatim>\<open>desicion_by_pressed_count\<close>: the \<^verbatim>\<open>if\<close> that commits the counted
  presses. \<^verbatim>\<open>&&\<close> is short-circuit, so the tick is read only when a tick is recorded and
  the counter is positive.
\<close>

definition commit_pressed_count ::
  "'w button_api_t \<Rightarrow> nat \<Rightarrow> 'w driver \<Rightarrow> 'w \<Rightarrow> fault + ('w driver \<times> 'w)" where
  "commit_pressed_count a index s w =
    (if record_last_tick s index \<noteq> 0 \<and> press_count s index > 0 then
       (case TICK_DIFF a (record_last_tick s index) w of
          Inl e \<Rightarrow> Inl e
        | Inr (d, w1) \<Rightarrow>
           if d > DETECT_SINGLE_BUTTON_PRESS_IN_US * tick_count_in_1us a then
             (let s1 = s\<lparr>record_last_tick := (record_last_tick s)(index := 0)\<rparr> in
              if press_count s1 index = 1 then
                (case fp_event_callback a of
                   None \<Rightarrow> Inl NullFunctionPointer
                 | Some cb \<Rightarrow>
                    Inr (s1\<lparr>dispatched := dispatched s1 @ [(BUTTON_NORMAL_PRESS, index)],
                            press_count := (press_count s1)(index := 0)\<rparr>,
                         cb BUTTON_NORMAL_PRESS index w1))
              else if press_count s1 index = 2 then
                (case fp_event_callback a of
                   None \<Rightarrow> Inl NullFunctionPointer
                 | Some cb \<Rightarrow>
                    Inr (s1\<lparr>dispatched := dispatched s1 @ [(BUTTON_DOUBLE_PRESS, index)],
                            press_count := (press_count s1)(index := 0)\<rparr>,
                         cb BUTTON_DOUBLE_PRESS index w1))
              else Inr (s1\<lparr>press_count := (press_count s1)(index := 0)\<rparr>, w1))
           else Inr (s, w1))
     else Inr (s, w))"

text \<open>
  \<^verbatim>\<open>desicion_by_pressed_count(index)\<close>: \<^verbatim>\<open>detect_the_press\<close> on \<^verbatim>\<open>&press_count[index]\<close>, the
  returned tick stored in \<^verbatim>\<open>check_last_tick\<close> and, when it is not 0, in
  \<^verbatim>\<open>record_last_tick[index]\<close>; then the commit.
\<close>

definition desicion_by_pressed_count ::
  "'w button_api_t \<Rightarrow> nat \<Rightarrow> 'w driver \<Rightarrow> 'w \<Rightarrow> fault + ('w driver \<times> 'w)" where
  "desicion_by_pressed_count a index s w =
    (if BUTTON_MAX \<le> index then Inl IndexOutOfBounds
     else
       (case detect_the_press a index (press_count s index) s w of
          Inl e \<Rightarrow> Inl e
        | Inr (t, c, s1, w1) \<Rightarrow>
           (let s2 = s1\<lparr>check_last_tick := t, press_count := (press_count s1)(index := c)\<rparr>;
                s3 = (if t \<noteq> 0
                      then s2\<lparr>record_last_tick := (record_last_tick s2)(index := t)\<rparr>
                      else s2)
            in commit_pressed_count a index s3 w1)))"

text \<open>
  \<^verbatim>\<open>button_initialize(p_button_api)\<close>: the returned status and the driver. The argument is
  \<open>None\<close> for a \<^verbatim>\<open>NULL\<close> pointer.
\<close>

definition button_initialize ::
  "'w button_api_t option \<Rightarrow> 'w driver \<Rightarrow> init_status_t \<times> 'w driver" where
  "button_initialize p_button_api s =
    (let s1 = s\<lparr>button_init_status := FAIL\<rparr> in
     case p_button_api of
       None \<Rightarrow> (button_init_status s1, s1)
     | Some a \<Rightarrow>
        if size_of_buttons a > 0 \<and> fp_get_current_tick a \<noteq> None \<and> fp_event_callback a \<noteq> None
        then (let s2 = s1\<lparr>p_api := Some a, button_init_status := SUCCESS\<rparr>
              in (button_init_status s2, s2))
        else (button_init_status s1, s1))"

text \<open>The tick source read once and written by \<open>upd\<close> into the timestamps of line \<open>inx\<close>.\<close>

definition stamp ::
  "'w button_api_t \<Rightarrow> nat \<Rightarrow> (u32 \<Rightarrow> detection_pressed_tick_t \<Rightarrow> detection_pressed_tick_t) \<Rightarrow>
   'w driver \<Rightarrow> 'w \<Rightarrow> fault + ('w driver \<times> 'w)" where
  "stamp a inx upd s w =
    (case fp_get_current_tick a of
       None \<Rightarrow> Inl NullFunctionPointer
     | Some now \<Rightarrow>
        (case now w of
           (t, w') \<Rightarrow> Inr (s\<lparr>pressed_tick := (pressed_tick s)(inx := upd t (pressed_tick s inx))\<rparr>, w')))"

definition set_first :: "u32 \<Rightarrow> detection_pressed_tick_t \<Rightarrow> detection_pressed_tick_t" where
  "set_first t pt = pt\<lparr>first := t\<rparr>"

definition set_last :: "u32 \<Rightarrow> detection_pressed_tick_t \<Rightarrow> detection_pressed_tick_t" where
  "set_last t pt = pt\<lparr>last_tick := t\<rparr>"

text \<open>\<^verbatim>\<open>button_isr(p_pin)\<close>; \<open>None\<close> is a \<^verbatim>\<open>NULL\<close> \<^verbatim>\<open>p_pin\<close>. The mode switched on is the one of
  the pin passed in.\<close>

definition button_isr ::
  "pin_config_t option \<Rightarrow> 'w driver \<Rightarrow> 'w \<Rightarrow> fault + ('w driver \<times> 'w)" where
  "button_isr p_pin s w =
    (case p_pin of
       None \<Rightarrow> Inr (s, w)
     | Some p \<Rightarrow>
        if mode_value (interrupt_mode p) > mode_value BUTTON_INTERRUPT_MODE_NONE
           \<and> button_init_status s = SUCCESS
        then
          (case p_api s of
             None \<Rightarrow> Inl NullApi
           | Some a \<Rightarrow>
              (case find_pin_id a (pin p) of
                 Inl e \<Rightarrow> Inl e
               | Inr None \<Rightarrow> Inr (s, w)
               | Inr (Some inx) \<Rightarrow>
                  (case interrupt_mode p of
                     BUTTON_INTERRUPT_MODE_RISING_EDGE \<Rightarrow>
                       if last_tick (pressed_tick s inx) = 0
                       then stamp a inx set_last s w else Inr (s, w)
                   | BUTTON_INTERRUPT_MODE_FALLING_EDGE \<Rightarrow>
                       if first (pressed_tick s inx) = 0
                       then stamp a inx set_first s w else Inr (s, w)
                   | BUTTON_INTERRUPT_MODE_BOTH_EDGES \<Rightarrow>
                       if first (pressed_tick s inx) = 0
                       then stamp a inx set_first s w else stamp a inx set_last s w
                   | BUTTON_INTERRUPT_MODE_NONE \<Rightarrow> Inr (s, w))))
        else Inr (s, w))"

text \<open>The \<^verbatim>\<open>switch\<close> of \<^verbatim>\<open>button_process\<close> for line \<open>i\<close>, given the level read as \<open>pressed\<close>.\<close>

definition poll_capture ::
  "'w button_api_t \<Rightarrow> nat \<Rightarrow> bool \<Rightarrow> 'w driver \<Rightarrow> 'w \<Rightarrow> fault + ('w driver \<times> 'w)" where
  "poll_capture a i pressed s w =
    (case interrupt_mode (button_pins a i) of
       BUTTON_INTERRUPT_MODE_RISING_EDGE \<Rightarrow>
         if pressed \<and> first (pressed_tick s i) = 0
         then stamp a i set_first s w else Inr (s, w)
     | BUTTON_INTERRUPT_MODE_FALLING_EDGE \<Rightarrow>
         if pressed \<and> first (pressed_tick s i) \<noteq> 0
         then stamp a i set_last s w else Inr (s, w)
     | BUTTON_INTERRUPT_MODE_BOTH_EDGES \<Rightarrow> Inr (s, w)
     | BUTTON_INTERRUPT_MODE_NONE \<Rightarrow>
         if pressed
         then (if first (pressed_tick s i) = 0
               then stamp a i set_first s w else stamp a i set_last s w)
         else Inr (s, w))"

text \<open>The body of the \<^verbatim>\<open>for\<close> loop of \<^verbatim>\<open>button_process\<close>: the level read through
  \<^verbatim>\<open>fp_read_button\<close>, the switch, then \<^verbatim>\<open>desicion_by_pressed_count(i)\<close>.\<close>

definition button_process_line ::
  "'w button_api_t \<Rightarrow> nat \<Rightarrow> 'w driver \<Rightarrow> 'w \<Rightarrow> fault + ('w driver \<times> 'w)" where
  "button_process_line a i s w =
    (if BUTTON_MAX \<le> i then Inl IndexOutOfBounds
     else
       (case fp_read_button a of
          None \<Rightarrow> Inl NullFunctionPointer
        | Some rd \<Rightarrow>
           (case rd (button_pins a i) w of
              (lvl, w1) \<Rightarrow>
                (case poll_capture a i (if active_high a \<noteq> 0 then lvl = 1 else lvl = 0) s w1 of
                   Inl e \<Rightarrow> Inl e
                 | Inr (s2, w2) \<Rightarrow> desicion_by_pressed_count a i s2 w2))))"

text \<open>The loop \<^verbatim>\<open>for (i=0; i<p_api->size_of_buttons; i++)\<close> from \<open>i\<close> on.\<close>

function button_process_from ::
  "'w button_api_t \<Rightarrow> nat \<Rightarrow> 'w driver \<Rightarrow> 'w \<Rightarrow> fault + ('w driver \<times> 'w)" where
  "button_process_from a i s w =
    (if i < unat (size_of_buttons a) then
       (case button_process_line a i s w of
          Inl e \<Rightarrow> Inl e
        | Inr (s', w') \<Rightarrow> button_process_from a (i + 1) s' w')
     else Inr (s, w))"
  by pat_completeness auto
termination
  by (relation "measure (\<lambda>(a, i, s, w). unat (size_of_buttons a) - i)") auto

definition button_process :: "'w driver \<Rightarrow> 'w \<Rightarrow> fault + ('w driver \<times> 'w)" where
  "button_process s w =
    (if button_init_status s = SUCCESS then
       (case p_api s of
          None \<Rightarrow> Inl NullApi
        | Some a \<Rightarrow> button_process_from a 0 s w)
     else Inr (s, w))"

text \<open>
  The first \<open>n\<close> passes of the loop of \<^verbatim>\<open>button_process\<close>, lines 0 to \<open>n - 1\<close>: what the call
  has done when it reaches line \<open>n\<close>.
\<close>

fun button_process_upto ::
  "'w button_api_t \<Rightarrow> nat \<Rightarrow> 'w driver \<Rightarrow> 'w \<Rightarrow> fault + ('w driver \<times> 'w)" where
  "button_process_upto a 0 s w = Inr (s, w)"
| "button_process_upto a (Suc n) s w =
    (case button_process_upto a n s w of
       Inl e \<Rightarrow> Inl e
     | Inr (s1, w1) \<Rightarrow> button_process_line a n s1 w1)"

text \<open>How many events of type \<open>ty\<close> have been dispatched for line \<open>i\<close>.\<close>

definition dispatched_count :: "button_pressed_types_t \<Rightarrow> nat \<Rightarrow> 'w driver \<Rightarrow> nat" where
  "dispatched_count ty i s = count_list (dispatched s) (ty, i)"

text \<open>Nothing of line \<open>i\<close> differs between two drivers: timestamps, recorded tick, counter,
  events dispatched for it.\<close>

definition line_untouched :: "nat \<Rightarrow> 'w driver \<Rightarrow> 'w driver \<Rightarrow> bool" where
  "line_untouched i s s' =
    (pressed_tick s' i = pressed_tick s i \<and> record_last_tick s' i = record_last_tick s i
     \<and> press_count s' i = press_count s i
     \<and> (\<forall>ty. dispatched_count ty i s' = dispatched_count ty i s))"

section \<open>Runs of the driver\<close>

text \<open>
  What happens to the driver from outside: a call of one of its three entry points, or a
  step of the platform (time passing, a level changing) between two calls.
\<close>

datatype 'w call =
  Initialize "'w button_api_t option"
  | Isr "pin_config_t option"
  | Process
  | Platform "'w \<Rightarrow> 'w"

fun step :: "'w call \<Rightarrow> 'w driver \<Rightarrow> 'w \<Rightarrow> fault + ('w driver \<times> 'w)" where
  "step (Initialize p) s w = Inr (snd (button_initialize p s), w)"
| "step (Isr p) s w = button_isr p s w"
| "step Process s w = button_process s w"
| "step (Platform f) s w = Inr (s, f w)"

fun run :: "'w call list \<Rightarrow> 'w driver \<Rightarrow> 'w \<Rightarrow> fault + ('w driver \<times> 'w)" where
  "run [] s w = Inr (s, w)"
| "run (c # cs) s w =
    (case step c s w of Inl e \<Rightarrow> Inl e | Inr (s', w') \<Rightarrow> run cs s' w')"

text \<open>The platform's own steps of a run, applied in order.\<close>

fun platform_after :: "'w call list \<Rightarrow> 'w \<Rightarrow> 'w" where
  "platform_after [] w = w"
| "platform_after (Platform f # cs) w = platform_after cs (f w)"
| "platform_after (c # cs) w = platform_after cs w"

text \<open>A call of \<^verbatim>\<open>button_initialize\<close> that returns \<^verbatim>\<open>SUCCESS\<close>; the returned status does not
  depend on the driver the call starts from.\<close>

fun successful_initialize :: "'w call \<Rightarrow> bool" where
  "successful_initialize (Initialize p) = (fst (button_initialize p initial_driver) = SUCCESS)"
| "successful_initialize c = False"

text \<open>
  A call of \<^verbatim>\<open>button_isr\<close> with a rising-edge pin that the driver, being initialised, finds
  among its lines, on a line whose \<^verbatim>\<open>first\<close> is unset.
\<close>

fun rising_on_unset :: "'w call \<Rightarrow> 'w driver \<Rightarrow> bool" where
  "rising_on_unset (Isr (Some p)) s =
    (interrupt_mode p = BUTTON_INTERRUPT_MODE_RISING_EDGE \<and> button_init_status s = SUCCESS
     \<and> (case p_api s of
          None \<Rightarrow> False
        | Some a \<Rightarrow>
           (case find_pin_id a (pin p) of
              Inl e \<Rightarrow> False
            | Inr None \<Rightarrow> False
            | Inr (Some inx) \<Rightarrow> first (pressed_tick s inx) = 0)))"
| "rising_on_unset c s = False"

text \<open>No call of a run is such a call, in the driver the run has reached by then.\<close>

fun no_rising_on_unset :: "'w call list \<Rightarrow> 'w driver \<Rightarrow> 'w \<Rightarrow> bool" where
  "no_rising_on_unset [] s w = True"
| "no_rising_on_unset (c # cs) s w =
    (\<not> rising_on_unset c s
     \<and> (case step c s w of Inl e \<Rightarrow> True | Inr (s', w') \<Rightarrow> no_rising_on_unset cs s' w'))"

text \<open>The events a run has dispatched, \<open>None\<close> when it stopped with a fault.\<close>

definition dispatched_by ::
  "fault + ('w driver \<times> 'w) \<Rightarrow> (button_pressed_types_t \<times> nat) list option" where
  "dispatched_by r = (case r of Inl e \<Rightarrow> None | Inr (s, w) \<Rightarrow> Some (dispatched s))"

text \<open>The timestamps of line \<open>i\<close> after a run.\<close>

definition timestamps_by ::
  "fault + ('w driver \<times> 'w) \<Rightarrow> nat \<Rightarrow> detection_pressed_tick_t option" where
  "timestamps_by r i = (case r of Inl e \<Rightarrow> None | Inr (s, w) \<Rightarrow> Some (pressed_tick s i))"

text \<open>The recorded confirmation tick and the counter of line \<open>i\<close> after a run.\<close>

definition pending_by :: "fault + ('w driver \<times> 'w) \<Rightarrow> nat \<Rightarrow> (u32 \<times> u8) option" where
  "pending_by r i =
    (case r of Inl e \<Rightarrow> None | Inr (s, w) \<Rightarrow> Some (record_last_tick s i, press_count s i))"

text \<open>
  The relation between the two timestamps of every line: \<^verbatim>\<open>last\<close> is set only when
  \<^verbatim>\<open>first\<close> is.
\<close>

definition capture_inv :: "'w driver \<Rightarrow> bool" where
  "capture_inv s =
    (\<forall>i<BUTTON_MAX. last_tick (pressed_tick s i) \<noteq> 0 \<longrightarrow> first (pressed_tick s i) \<noteq> 0)"

section \<open>A concrete platform\<close>

text \<open>
  A board with a free-running tick counter, which advances by one at every read, and one
  logic level read on every pin, and the
  configuration of \<^verbatim>\<open>system_init\<close> in \<^verbatim>\<open>src/unnamed/part_000\<close> (pins 33 and 32, two
  buttons, active low, 10 ms debounce, 1 s long press, \<^verbatim>\<open>tick_elapsed\<close> as the elapsed
  function) at one tick per microsecond. The mode of line 0 is a parameter;
  \<^verbatim>\<open>system_init\<close> sets it to both edges.
\<close>

record board =
  clock :: u32
  level :: s32

definition demo_pin :: "button_interrupt_mode_t \<Rightarrow> nat \<Rightarrow> pin_config_t" where
  "demo_pin m i =
    (if i = 0 then \<lparr>pin = 33, interrupt_mode = m, p_reg = None\<rparr>
     else \<lparr>pin = 32, interrupt_mode = BUTTON_INTERRUPT_MODE_NONE, p_reg = None\<rparr>)"

definition get_current_tick :: "board \<Rightarrow> u32 \<times> board" where
  "get_current_tick b = (clock b, b\<lparr>clock := clock b + 1\<rparr>)"

definition read_button :: "pin_config_t \<Rightarrow> board \<Rightarrow> s32 \<times> board" where
  "read_button p b = (level b, b)"

definition button_event_callback :: "button_pressed_types_t \<Rightarrow> nat \<Rightarrow> board \<Rightarrow> board" where
  "button_event_callback ty button_id b = b"

definition demo_api :: "button_interrupt_mode_t \<Rightarrow> board button_api_t" where
  "demo_api m =
    \<lparr>button_pins = demo_pin m,
     size_of_buttons = 2, active_high = 0, tick_count_in_1us = 1,
     debounce_us = 10000, long_press_us = 1000000,
     fp_tick_elapsed = Some tick_elapsed,
     fp_read_button = Some read_button,
     fp_get_current_tick = Some get_current_tick,
     fp_event_callback = Some button_event_callback\<rparr>"

definition at_tick :: "u32 \<Rightarrow> board call" where
  "at_tick t = Platform (\<lambda>b. b\<lparr>clock := t\<rparr>)"

definition released :: board where
  "released = \<lparr>clock = 0, level = 1\<rparr>"

text \<open>An initialised driver whose line 0 holds the timestamps \<open>f\<close> and \<open>l\<close>, the recorded
  confirmation tick \<open>r\<close> and the counter \<open>c\<close>.\<close>

definition demo_driver ::
  "button_interrupt_mode_t \<Rightarrow> u32 \<Rightarrow> u32 \<Rightarrow> u32 \<Rightarrow> u8 \<Rightarrow> board driver" where
  "demo_driver m f l r c =
    \<lparr>p_api = Some (demo_api m), button_init_status = SUCCESS,
     pressed_tick = (\<lambda>_. \<lparr>first = 0, last_tick = 0\<rparr>)(0 := \<lparr>first = f, last_tick = l\<rparr>),
     check_last_tick = 0, record_last_tick = (\<lambda>_. 0)(0 := r), press_count = (\<lambda>_. 0)(0 := c),
     dispatched = []\<rparr>"

section \<open>Unfolding the model\<close>

text \<open>The equations of the two loops are unfolded on request only.\<close>

declare find_pin_id_from.simps [simp del]

declare button_process_from.simps [simp del]

lemmas driver_defs =
  button_process_def button_process_from.simps button_process_line_def poll_capture_def
  desicion_by_pressed_count_def commit_pressed_count_def detect_the_press_def TICK_DIFF_def
  clear_ticks_def stamp_def set_first_def set_last_def button_isr_def find_pin_id_def
  find_pin_id_from.simps button_initialize_def

lemmas loop_defs =
  button_process_from.simps button_process_line_def poll_capture_def
  desicion_by_pressed_count_def commit_pressed_count_def detect_the_press_def TICK_DIFF_def
  clear_ticks_def stamp_def set_first_def set_last_def

lemmas demo_defs =
  demo_api_def demo_pin_def demo_driver_def at_tick_def released_def get_current_tick_def
  read_button_def button_event_callback_def initial_driver_def BUTTON_MAX_def
  tick_elapsed_def UINT32_MAX_def DETECT_SINGLE_BUTTON_PRESS_IN_US_def dispatched_by_def
  timestamps_by_def pending_by_def

section \<open>Tick arithmetic\<close>

text \<open>
  C3. The claim: \<^verbatim>\<open>tick_elapsed(start, end)\<close> is the modular distance from \<open>start\<close> to
  \<open>end\<close>, in particular \<^verbatim>\<open>tick_elapsed(0xFFFFFFF0, 0x00000010) == 0x20\<close>. The code returns
  \<open>0x1F\<close> there: its wrap branch adds \<^verbatim>\<open>UINT32_MAX - start\<close>, one less than the distance from
  \<open>start\<close> to the wrap.
\<close>

theorem tick_elapsed_wrapped:
  "tick_elapsed 0xFFFFFFF0 0x00000010 = 0x1F"
  by (simp add: tick_elapsed_def UINT32_MAX_def)

text \<open>The same for every pair of ticks: the wrap branch is one short of \<open>end - start\<close>.\<close>

lemma tick_elapsed_modular:
  "tick_elapsed start end' = (if start < end' then end' - start else end' - start - 1)"
  by (simp add: tick_elapsed_def UINT32_MAX_def)

section \<open>One line of a call of \<open>button_process\<close>\<close>

text \<open>
  A call of \<^verbatim>\<open>button_process\<close> on an initialised driver is its first \<open>n\<close> passes followed by
  the loop from line \<open>n\<close> on; the passes for the other lines leave everything of a line
  as it is.
\<close>

lemma button_process_from_split:
  assumes "n \<le> unat (size_of_buttons a)"
  shows "button_process_from a 0 s w =
    (case button_process_upto a n s w of
       Inl e \<Rightarrow> Inl e
     | Inr (s1, w1) \<Rightarrow> button_process_from a n s1 w1)"
  using assms
proof (induction n)
  case 0
  then show ?case by simp
next
  case (Suc n)
  then have lt: "n < unat (size_of_buttons a)" by simp
  have "button_process_from a 0 s w =
    (case button_process_upto a n s w of
       Inl e \<Rightarrow> Inl e
     | Inr (s1, w1) \<Rightarrow> button_process_from a n s1 w1)"
    using Suc by simp
  also have "\<dots> = (case button_process_upto a (Suc n) s w of
       Inl e \<Rightarrow> Inl e
     | Inr (s1, w1) \<Rightarrow> button_process_from a (Suc n) s1 w1)"
    using lt
    by (auto simp: button_process_from.simps [of a n] split: sum.splits)
  finally show ?case .
qed

lemma button_process_at_line:
  assumes "button_init_status s = SUCCESS" and "p_api s = Some a"
    and "i < unat (size_of_buttons a)"
    and "button_process_upto a i s w = Inr (sa, wa)"
  shows "button_process s w =
    (case button_process_line a i sa wa of
       Inl e \<Rightarrow> Inl e
     | Inr (sc, wc) \<Rightarrow> button_process_from a (Suc i) sc wc)"
proof -
  have "button_process s w = button_process_from a i sa wa"
    using assms button_process_from_split [of i a s w]
    by (simp add: button_process_def)
  then show ?thesis
    using assms(3)
    by (auto simp: button_process_from.simps [of a i] split: sum.splits)
qed

lemma line_untouched_refl: "line_untouched i s s"
  by (simp add: line_untouched_def)

lemma line_untouched_trans:
  "line_untouched i s s1 \<Longrightarrow> line_untouched i s1 s2 \<Longrightarrow> line_untouched i s s2"
  by (simp add: line_untouched_def)

lemma stamp_untouched:
  assumes "j \<noteq> i" and "stamp a j upd s w = Inr (s', w')"
  shows "line_untouched i s s'"
  using assms
  by (auto simp: stamp_def line_untouched_def dispatched_count_def
      split: option.splits prod.splits)

lemma poll_capture_untouched:
  assumes "j \<noteq> i" and "poll_capture a j pressed s w = Inr (s', w')"
  shows "line_untouched i s s'"
  using assms
  by (auto simp: poll_capture_def line_untouched_refl
      split: button_interrupt_mode_t.splits if_splits
      intro: stamp_untouched)

lemma detect_the_press_untouched:
  assumes "j \<noteq> i" and "detect_the_press a j count s w = Inr (t, c, s1, w1)"
  shows "line_untouched i s s1"
  using assms
  by (auto simp: detect_the_press_def clear_ticks_def line_untouched_def dispatched_count_def
      split: if_splits sum.splits option.splits prod.splits)

lemma commit_pressed_count_untouched:
  assumes "j \<noteq> i" and "commit_pressed_count a j s w = Inr (s', w')"
  shows "line_untouched i s s'"
  using assms
  by (auto simp: commit_pressed_count_def Let_def line_untouched_def dispatched_count_def
      split: if_splits sum.splits option.splits prod.splits)


lemma desicion_by_pressed_count_untouched:
  assumes ne: "j \<noteq> i" and dec: "desicion_by_pressed_count a j s w = Inr (s', w')"
  shows "line_untouched i s s'"
proof -
  from dec obtain t c s1 w1 where
    det: "detect_the_press a j (press_count s j) s w = Inr (t, c, s1, w1)"
    and com: "commit_pressed_count a j
        (if t \<noteq> 0
         then s1\<lparr>check_last_tick := t, press_count := (press_count s1)(j := c),
                 record_last_tick := (record_last_tick s1)(j := t)\<rparr>
         else s1\<lparr>check_last_tick := t, press_count := (press_count s1)(j := c)\<rparr>) w1
        = Inr (s', w')"
    by (auto simp: desicion_by_pressed_count_def Let_def
        split: if_splits sum.splits prod.splits)
  have a: "line_untouched i s s1"
    using detect_the_press_untouched [OF ne det] .
  have b: "line_untouched i s1
      (if t \<noteq> 0
       then s1\<lparr>check_last_tick := t, press_count := (press_count s1)(j := c),
               record_last_tick := (record_last_tick s1)(j := t)\<rparr>
       else s1\<lparr>check_last_tick := t, press_count := (press_count s1)(j := c)\<rparr>)"
    using ne by (simp add: line_untouched_def dispatched_count_def)
  have c: "line_untouched i
      (if t \<noteq> 0
       then s1\<lparr>check_last_tick := t, press_count := (press_count s1)(j := c),
               record_last_tick := (record_last_tick s1)(j := t)\<rparr>
       else s1\<lparr>check_last_tick := t, press_count := (press_count s1)(j := c)\<rparr>) s'"
    using commit_pressed_count_untouched [OF ne com] .
  from a b c show ?thesis by (blast intro: line_untouched_trans)
qed

lemma button_process_line_untouched:
  assumes ne: "j \<noteq> i" and line: "button_process_line a j s w = Inr (s', w')"
  shows "line_untouched i s s'"
proof -
  from line obtain rd where rd: "fp_read_button a = Some rd"
    by (auto simp: button_process_line_def split: if_splits option.splits)
  obtain lvl w1 where lv: "rd (button_pins a j) w = (lvl, w1)"
    by (cases "rd (button_pins a j) w")
  from line rd lv obtain s2 w2 where
    cap: "poll_capture a j (if active_high a \<noteq> 0 then lvl = 1 else lvl = 0) s w1 = Inr (s2, w2)"
    and dec: "desicion_by_pressed_count a j s2 w2 = Inr (s', w')"
    by (auto simp: button_process_line_def split: if_splits sum.splits)
  from poll_capture_untouched [OF ne cap] desicion_by_pressed_count_untouched [OF ne dec]
  show ?thesis by (rule line_untouched_trans)
qed

lemma button_process_from_untouched:
  assumes "i < j" and "button_process_from a j s w = Inr (s', w')"
  shows "line_untouched i s s'"
  using assms
proof (induction a j s w rule: button_process_from.induct)
  case (1 a j s w)
  show ?case
  proof (cases "j < unat (size_of_buttons a)")
    case True
    with "1.prems"(2) obtain s1 w1 where
      line: "button_process_line a j s w = Inr (s1, w1)"
      and rest: "button_process_from a (j + 1) s1 w1 = Inr (s', w')"
      by (auto simp: button_process_from.simps [of a j s w] split: sum.splits)
    from "1.prems"(1) have "j \<noteq> i" by simp
    from button_process_line_untouched [OF this line] have a: "line_untouched i s s1" .
    from "1.IH" True line rest "1.prems"(1) have "line_untouched i s1 s'" by simp
    with a show ?thesis by (rule line_untouched_trans)
  next
    case False
    with "1.prems" show ?thesis
      by (simp add: button_process_from.simps [of a j s w] line_untouched_refl)
  qed
qed

lemma button_process_upto_untouched:
  assumes "n \<le> i" and "button_process_upto a n s w = Inr (s', w')"
  shows "line_untouched i s s'"
  using assms
proof (induction n arbitrary: s' w')
  case 0
  then show ?case by (simp add: line_untouched_refl)
next
  case (Suc n)
  from Suc.prems(2) obtain s1 w1 where
    up: "button_process_upto a n s w = Inr (s1, w1)"
    and line: "button_process_line a n s1 w1 = Inr (s', w')"
    by (auto split: sum.splits)
  from Suc.prems(1) have "n \<noteq> i" "n \<le> i" by simp_all
  from Suc.IH [OF this(2) up] button_process_line_untouched [OF this(1) line]
  show ?case by (rule line_untouched_trans)
qed

lemma commit_pressed_count_own:
  assumes "commit_pressed_count a i s w = Inr (s', w')"
  shows "pressed_tick s' = pressed_tick s"
    "dispatched_count BUTTON_LONG_PRESS k s' = dispatched_count BUTTON_LONG_PRESS k s"
  using assms
  by (auto simp: commit_pressed_count_def Let_def dispatched_count_def
      split: if_splits sum.splits option.splits prod.splits)

lemma poll_capture_own:
  assumes "poll_capture a i pressed s w = Inr (s', w')"
  shows "dispatched s' = dispatched s" "record_last_tick s' = record_last_tick s"
    "press_count s' = press_count s"
  using assms
  by (auto simp: poll_capture_def stamp_def
      split: button_interrupt_mode_t.splits if_splits option.splits prod.splits)


section \<open>The press classifier\<close>

text \<open>The verdict of \<^verbatim>\<open>detect_the_press\<close> on a line with both timestamps set, once the
  quiet-time check has passed; \<open>t1\<close>, \<open>t2\<close> and \<open>t3\<close> are its three reads of the tick.\<close>

lemma detect_the_press_verdict:
  assumes idx: "index < BUTTON_MAX"
    and el: "fp_tick_elapsed a = Some el"
    and now: "fp_get_current_tick a = Some now"
    and cb: "fp_event_callback a = Some cb"
    and both: "first (pressed_tick s index) \<noteq> 0" "last_tick (pressed_tick s index) \<noteq> 0"
    and r1: "now w = (t1, w1)" and r2: "now w1 = (t2, w2)" and r3: "now w2 = (t3, w3)"
    and quiet: "el (last_tick (pressed_tick s index)) t1 > debounce_us a * tick_count_in_1us a"
  shows "detect_the_press a index count s w =
    (if el (first (pressed_tick s index)) (last_tick (pressed_tick s index))
          > long_press_us a * tick_count_in_1us a
     then Inr (0, count,
               s\<lparr>pressed_tick := (pressed_tick s)(index := \<lparr>first = 0, last_tick = 0\<rparr>),
                 dispatched := dispatched s @ [(BUTTON_LONG_PRESS, index)]\<rparr>,
               cb BUTTON_LONG_PRESS index w1)
     else if el (last_tick (pressed_tick s index)) t2 < 500000 * tick_count_in_1us a
     then Inr (t3, count + 1,
               s\<lparr>pressed_tick := (pressed_tick s)(index := \<lparr>first = 0, last_tick = 0\<rparr>)\<rparr>, w3)
     else Inr (0, count, s, w2))"
  using assms
  by (simp add: detect_the_press_def TICK_DIFF_def clear_ticks_def
      DETECT_SINGLE_BUTTON_PRESS_IN_US_def)

text \<open>
  C1, as claimed: for a line with both timestamps set whose quiet-time check has passed,
  a short press makes \<^verbatim>\<open>button_process\<close> increment the counter, clear both timestamps and
  record the current tick as the confirmation tick. On the board, a first press is
  confirmed at tick 4294620002. A second one, with edges at 4294950000 and 4294955000, is
  classified by the \<^verbatim>\<open>button_process\<close> that starts at tick 4294967294: the quiet-time check
  reads 4294967294, the window check 4294967295, and the read of the confirmation has
  wrapped to 0. After the call the counter is 2 and both timestamps are cleared, but the
  recorded confirmation tick is still 4294620002, none of the ticks read in the call.
\<close>

theorem zero_tick_is_not_recorded:
  "timestamps_by
     (run [Initialize (Some (demo_api BUTTON_INTERRUPT_MODE_BOTH_EDGES)),
           at_tick 4294600000, Isr (Some (demo_pin BUTTON_INTERRUPT_MODE_BOTH_EDGES 0)),
           at_tick 4294605000, Isr (Some (demo_pin BUTTON_INTERRUPT_MODE_BOTH_EDGES 0)),
           at_tick 4294620000, Process,
           at_tick 4294950000, Isr (Some (demo_pin BUTTON_INTERRUPT_MODE_BOTH_EDGES 0)),
           at_tick 4294955000, Isr (Some (demo_pin BUTTON_INTERRUPT_MODE_BOTH_EDGES 0))]
        initial_driver released) 0
     = Some \<lparr>first = 4294950000, last_tick = 4294955000\<rparr>
   \<and> pending_by
     (run [Initialize (Some (demo_api BUTTON_INTERRUPT_MODE_BOTH_EDGES)),
           at_tick 4294600000, Isr (Some (demo_pin BUTTON_INTERRUPT_MODE_BOTH_EDGES 0)),
           at_tick 4294605000, Isr (Some (demo_pin BUTTON_INTERRUPT_MODE_BOTH_EDGES 0)),
           at_tick 4294620000, Process,
           at_tick 4294950000, Isr (Some (demo_pin BUTTON_INTERRUPT_MODE_BOTH_EDGES 0)),
           at_tick 4294955000, Isr (Some (demo_pin BUTTON_INTERRUPT_MODE_BOTH_EDGES 0))]
        initial_driver released) 0
     = Some (4294620002, 1)
   \<and> tick_elapsed 4294955000 4294967294
       > debounce_us (demo_api BUTTON_INTERRUPT_MODE_BOTH_EDGES)
         * tick_count_in_1us (demo_api BUTTON_INTERRUPT_MODE_BOTH_EDGES)
   \<and> \<not> tick_elapsed 4294950000 4294955000
       > long_press_us (demo_api BUTTON_INTERRUPT_MODE_BOTH_EDGES)
         * tick_count_in_1us (demo_api BUTTON_INTERRUPT_MODE_BOTH_EDGES)
   \<and> tick_elapsed 4294955000 4294967295
       < 500000 * tick_count_in_1us (demo_api BUTTON_INTERRUPT_MODE_BOTH_EDGES)
   \<and> timestamps_by
     (run [Initialize (Some (demo_api BUTTON_INTERRUPT_MODE_BOTH_EDGES)),
           at_tick 4294600000, Isr (Some (demo_pin BUTTON_INTERRUPT_MODE_BOTH_EDGES 0)),
           at_tick 4294605000, Isr (Some (demo_pin BUTTON_INTERRUPT_MODE_BOTH_EDGES 0)),
           at_tick 4294620000, Process,
           at_tick 4294950000, Isr (Some (demo_pin BUTTON_INTERRUPT_MODE_BOTH_EDGES 0)),
           at_tick 4294955000, Isr (Some (demo_pin BUTTON_INTERRUPT_MODE_BOTH_EDGES 0)),
           at_tick 4294967294, Process]
        initial_driver released) 0
     = Some \<lparr>first = 0, last_tick = 0\<rparr>
   \<and> pending_by
     (run [Initialize (Some (demo_api BUTTON_INTERRUPT_MODE_BOTH_EDGES)),
           at_tick 4294600000, Isr (Some (demo_pin BUTTON_INTERRUPT_MODE_BOTH_EDGES 0)),
           at_tick 4294605000, Isr (Some (demo_pin BUTTON_INTERRUPT_MODE_BOTH_EDGES 0)),
           at_tick 4294620000, Process,
           at_tick 4294950000, Isr (Some (demo_pin BUTTON_INTERRUPT_MODE_BOTH_EDGES 0)),
           at_tick 4294955000, Isr (Some (demo_pin BUTTON_INTERRUPT_MODE_BOTH_EDGES 0)),
           at_tick 4294967294, Process]
        initial_driver released) 0
     = Some (4294620002, 2)"
  by (simp add: demo_defs driver_defs Let_def)

text \<open>
  C1, amended. In a call of \<^verbatim>\<open>button_process\<close> on an initialised driver, take a configured
  line \<open>i\<close> that, when the loop has reached it (\<open>sa\<close>) and the switch has captured the level
  (\<open>sb\<close>), has both timestamps set, and whose quiet-time check passes: the elapsed ticks
  from \<^verbatim>\<open>last\<close> to the tick read (\<open>t1\<close>) exceed the debounce threshold in ticks. Then
  \<^item> if the elapsed ticks from \<^verbatim>\<open>first\<close> to \<^verbatim>\<open>last\<close> exceed the long-press threshold in
    ticks, the call dispatches exactly one \<^verbatim>\<open>BUTTON_LONG_PRESS\<close> for the line and clears both
    timestamps;
  \<^item> otherwise, if the elapsed ticks from \<^verbatim>\<open>last\<close> to the tick read next (\<open>t2\<close>) are below
    500000 microseconds in ticks, it increments the counter by one (a \<^verbatim>\<open>uint8_t\<close>: modulo
    256), clears both timestamps, and records the tick read then (\<open>t3\<close>) as the
    confirmation tick when that tick is not 0; a tick of 0 is not recorded and the
    recorded tick stays what it was;
  \<^item> otherwise it changes neither the timestamps nor the counter nor the recorded tick.

  In each case the commit check of \<^verbatim>\<open>desicion_by_pressed_count\<close> follows in the same call,
  on the counter and the recorded tick so obtained, and then the remaining lines. At the
  end of the call the timestamps of the line are cleared in the first two cases and as
  captured in the third, and the call has dispatched one long press for the line in the
  first case and none in the others.
\<close>

theorem button_process_classifies:
  assumes ready: "button_init_status s = SUCCESS" "p_api s = Some a"
    and line: "i < unat (size_of_buttons a)" "i < BUTTON_MAX"
    and el: "fp_tick_elapsed a = Some el"
    and now: "fp_get_current_tick a = Some now"
    and cb: "fp_event_callback a = Some cb"
    and rd: "fp_read_button a = Some rd"
    and before: "button_process_upto a i s w = Inr (sa, wa)"
    and level: "rd (button_pins a i) wa = (lvl, wl)"
    and capture: "poll_capture a i (if active_high a \<noteq> 0 then lvl = 1 else lvl = 0) sa wl
                  = Inr (sb, wb)"
    and both: "first (pressed_tick sb i) \<noteq> 0" "last_tick (pressed_tick sb i) \<noteq> 0"
    and r1: "now wb = (t1, w1)" and r2: "now w1 = (t2, w2)" and r3: "now w2 = (t3, w3)"
    and quiet: "el (last_tick (pressed_tick sb i)) t1 > debounce_us a * tick_count_in_1us a"
    and long: "long \<longleftrightarrow> el (first (pressed_tick sb i)) (last_tick (pressed_tick sb i))
                        > long_press_us a * tick_count_in_1us a"
    and short: "short \<longleftrightarrow> el (last_tick (pressed_tick sb i)) t2 < 500000 * tick_count_in_1us a"
  shows "button_process s w =
      (case commit_pressed_count a i
              (if long
               then sb\<lparr>pressed_tick := (pressed_tick sb)(i := \<lparr>first = 0, last_tick = 0\<rparr>),
                       check_last_tick := 0,
                       dispatched := dispatched sb @ [(BUTTON_LONG_PRESS, i)]\<rparr>
               else if short
               then sb\<lparr>pressed_tick := (pressed_tick sb)(i := \<lparr>first = 0, last_tick = 0\<rparr>),
                       check_last_tick := t3,
                       record_last_tick :=
                         (if t3 \<noteq> 0 then (record_last_tick sb)(i := t3) else record_last_tick sb),
                       press_count := (press_count sb)(i := press_count sb i + 1)\<rparr>
               else sb\<lparr>check_last_tick := 0\<rparr>)
              (if long then cb BUTTON_LONG_PRESS i w1 else if short then w3 else w2) of
         Inl e \<Rightarrow> Inl e
       | Inr (sc, wc) \<Rightarrow> button_process_from a (Suc i) sc wc)
    \<and> (button_process s w = Inr (s', w')
        \<longrightarrow> pressed_tick s' i
              = (if long \<or> short then \<lparr>first = 0, last_tick = 0\<rparr> else pressed_tick sb i)
          \<and> dispatched_count BUTTON_LONG_PRESS i s'
              = dispatched_count BUTTON_LONG_PRESS i s + (if long then 1 else 0))"
proof -
  let ?C = "if long
               then sb\<lparr>pressed_tick := (pressed_tick sb)(i := \<lparr>first = 0, last_tick = 0\<rparr>),
                       check_last_tick := 0,
                       dispatched := dispatched sb @ [(BUTTON_LONG_PRESS, i)]\<rparr>
               else if short
               then sb\<lparr>pressed_tick := (pressed_tick sb)(i := \<lparr>first = 0, last_tick = 0\<rparr>),
                       check_last_tick := t3,
                       record_last_tick :=
                         (if t3 \<noteq> 0 then (record_last_tick sb)(i := t3) else record_last_tick sb),
                       press_count := (press_count sb)(i := press_count sb i + 1)\<rparr>
               else sb\<lparr>check_last_tick := 0\<rparr>"
  let ?W = "if long then cb BUTTON_LONG_PRESS i w1 else if short then w3 else w2"
  note det = detect_the_press_verdict [OF line(2) el now cb both r1 r2 r3 quiet,
      of "press_count sb i"]
  have dec: "desicion_by_pressed_count a i sb wb = commit_pressed_count a i ?C ?W"
  proof (cases long)
    case True
    with long line(2) det show ?thesis
      by (cases sb) (simp add: desicion_by_pressed_count_def Let_def)
  next
    case False
    note not_long = this
    show ?thesis
    proof (cases short)
      case True
      with not_long long short line(2) det show ?thesis
        by (cases sb; cases "t3 = 0") (simp_all add: desicion_by_pressed_count_def Let_def)
    next
      case False
      with not_long long short line(2) det show ?thesis
        by (cases sb) (simp add: desicion_by_pressed_count_def Let_def)
    qed
  qed
  have ln: "button_process_line a i sa wa = commit_pressed_count a i ?C ?W"
    using line(2) rd level capture dec by (simp add: button_process_line_def)
  have eq: "button_process s w =
      (case commit_pressed_count a i ?C ?W of
         Inl e \<Rightarrow> Inl e
       | Inr (sc, wc) \<Rightarrow> button_process_from a (Suc i) sc wc)"
    using button_process_at_line [OF ready line(1) before] ln by simp
  have fin: "pressed_tick s' i
        = (if long \<or> short then \<lparr>first = 0, last_tick = 0\<rparr> else pressed_tick sb i)
      \<and> dispatched_count BUTTON_LONG_PRESS i s'
        = dispatched_count BUTTON_LONG_PRESS i s + (if long then 1 else 0)"
    if res: "button_process s w = Inr (s', w')"
  proof -
    from res eq obtain sc wc where
      com: "commit_pressed_count a i ?C ?W = Inr (sc, wc)"
      and rest: "button_process_from a (Suc i) sc wc = Inr (s', w')"
      by (auto split: sum.splits)
    have u1: "line_untouched i s sa"
      using button_process_upto_untouched [OF _ before] by simp
    have u2: "line_untouched i sc s'"
      using button_process_from_untouched [OF _ rest] by simp
    have c1: "pressed_tick sc = pressed_tick ?C"
      and c2: "dispatched_count BUTTON_LONG_PRESS i sc = dispatched_count BUTTON_LONG_PRESS i ?C"
      using commit_pressed_count_own [OF com] by simp_all
    have d: "dispatched sb = dispatched sa"
      using poll_capture_own [OF capture] by simp
    have "pressed_tick s' i = pressed_tick ?C i"
      using u2 c1 by (simp add: line_untouched_def)
    moreover have "dispatched_count BUTTON_LONG_PRESS i s'
        = dispatched_count BUTTON_LONG_PRESS i ?C"
      using u2 c2 by (simp add: line_untouched_def)
    moreover have "dispatched_count BUTTON_LONG_PRESS i ?C
        = dispatched_count BUTTON_LONG_PRESS i s + (if long then 1 else 0)"
      using u1 d by (simp add: line_untouched_def dispatched_count_def)
    ultimately show ?thesis by simp
  qed
  from eq fin show ?thesis by blast
qed


theorem button_process_classifies_witness:
  "button_process (demo_driver BUTTON_INTERRUPT_MODE_BOTH_EDGES 1000 12000 0 0)
      (released\<lparr>clock := 23000\<rparr>)
    = Inr (demo_driver BUTTON_INTERRUPT_MODE_BOTH_EDGES 0 0 23002 1, released\<lparr>clock := 23004\<rparr>)
   \<and> pressed_tick (demo_driver BUTTON_INTERRUPT_MODE_BOTH_EDGES 0 0 23002 1) 0
      = \<lparr>first = 0, last_tick = 0\<rparr>
   \<and> button_process (demo_driver BUTTON_INTERRUPT_MODE_BOTH_EDGES 1000 2000000 0 0)
      (released\<lparr>clock := 2023000\<rparr>)
    = Inr ((demo_driver BUTTON_INTERRUPT_MODE_BOTH_EDGES 0 0 0 0)
             \<lparr>dispatched := [(BUTTON_LONG_PRESS, 0)]\<rparr>, released\<lparr>clock := 2023001\<rparr>)
   \<and> dispatched_count BUTTON_LONG_PRESS 0
        ((demo_driver BUTTON_INTERRUPT_MODE_BOTH_EDGES 0 0 0 0)
           \<lparr>dispatched := [(BUTTON_LONG_PRESS, 0)]\<rparr>)
      = dispatched_count BUTTON_LONG_PRESS 0
          (demo_driver BUTTON_INTERRUPT_MODE_BOTH_EDGES 1000 2000000 0 0) + 1"
proof -
  let ?m = "BUTTON_INTERRUPT_MODE_BOTH_EDGES"
  let ?a = "demo_api ?m"
  let ?w = "\<lambda>t. released\<lparr>clock := t\<rparr>"
  have line: "0 < unat (size_of_buttons ?a)" "(0::nat) < BUTTON_MAX"
    and caps: "fp_tick_elapsed ?a = Some tick_elapsed"
      "fp_get_current_tick ?a = Some get_current_tick"
      "fp_event_callback ?a = Some button_event_callback"
      "fp_read_button ?a = Some read_button"
    by (simp_all add: demo_defs)
  have ready: "button_init_status (demo_driver ?m f l r c) = SUCCESS"
      "p_api (demo_driver ?m f l r c) = Some ?a" for f l r c
    by (simp_all add: demo_defs)
  have before: "button_process_upto ?a 0 d v = Inr (d, v)" for d v
    by simp
  have level: "read_button (button_pins ?a 0) (?w t) = (1, ?w t)" for t
    by (simp add: demo_defs)
  have capture: "poll_capture ?a 0 (if active_high ?a \<noteq> 0 then (1::s32) = 1 else (1::s32) = 0) d v
      = Inr (d, v)" for d v
    by (simp add: poll_capture_def demo_defs)
  have tick: "get_current_tick (?w t) = (t, ?w (t + 1))" for t
    by (simp add: demo_defs)
  note inst = button_process_classifies [OF ready line caps before level capture _ _
      tick tick tick _ refl refl]
  have short: "button_process (demo_driver ?m 1000 12000 0 0) (?w 23000)
      = Inr (demo_driver ?m 0 0 23002 1, ?w 23004)"
    using inst [of 1000 12000 0 0 23000]
    by (simp add: loop_defs demo_defs fun_upd_idem)
  have short_ticks: "pressed_tick (demo_driver ?m 0 0 23002 1) 0 = \<lparr>first = 0, last_tick = 0\<rparr>"
    using inst [of 1000 12000 0 0 23000 "demo_driver ?m 0 0 23002 1" "?w 23004"] short
    by (simp add: demo_defs)
  have long: "button_process (demo_driver ?m 1000 2000000 0 0) (?w 2023000)
      = Inr ((demo_driver ?m 0 0 0 0)\<lparr>dispatched := [(BUTTON_LONG_PRESS, 0)]\<rparr>, ?w 2023001)"
    using inst [of 1000 2000000 0 0 2023000]
    by (simp add: loop_defs demo_defs fun_upd_idem)
  have long_count: "dispatched_count BUTTON_LONG_PRESS 0
        ((demo_driver ?m 0 0 0 0)\<lparr>dispatched := [(BUTTON_LONG_PRESS, 0)]\<rparr>)
      = dispatched_count BUTTON_LONG_PRESS 0 (demo_driver ?m 1000 2000000 0 0) + 1"
    using inst [of 1000 2000000 0 0 2023000
        "(demo_driver ?m 0 0 0 0)\<lparr>dispatched := [(BUTTON_LONG_PRESS, 0)]\<rparr>" "?w 2023001"] long
    by (simp add: demo_defs)
  from short short_ticks long long_count show ?thesis by simp
qed


section \<open>The click aggregator\<close>

text \<open>\<^verbatim>\<open>detect_the_press\<close> writes the timestamps and the event list only, and the only
  event it dispatches is the long press.\<close>

lemma detect_the_press_frame:
  assumes "detect_the_press a index count s w = Inr (t, c, s1, w1)"
  shows "record_last_tick s1 = record_last_tick s" "press_count s1 = press_count s"
    "check_last_tick s1 = check_last_tick s" "p_api s1 = p_api s"
    "button_init_status s1 = button_init_status s"
  using assms
  by (auto simp: detect_the_press_def clear_ticks_def
      split: if_splits sum.splits option.splits prod.splits)

lemma detect_the_press_events:
  assumes "detect_the_press a index count s w = Inr (t, c, s1, w1)"
  shows "dispatched_count BUTTON_NORMAL_PRESS k s1 = dispatched_count BUTTON_NORMAL_PRESS k s"
    "dispatched_count BUTTON_DOUBLE_PRESS k s1 = dispatched_count BUTTON_DOUBLE_PRESS k s"
  using assms
  by (auto simp: detect_the_press_def clear_ticks_def dispatched_count_def
      split: if_splits sum.splits option.splits prod.splits)

text \<open>The commit of \<^verbatim>\<open>desicion_by_pressed_count\<close>, on the counter \<open>c\<close> and the recorded tick
  \<open>r\<close> as \<^verbatim>\<open>detect_the_press\<close> has left them in the same call.\<close>

lemma desicion_by_pressed_count_verdict:
  assumes idx: "index < BUTTON_MAX"
    and el: "fp_tick_elapsed a = Some el"
    and now: "fp_get_current_tick a = Some now"
    and cb: "fp_event_callback a = Some cb"
    and det: "detect_the_press a index (press_count s index) s w = Inr (t, c, s1, w1)"
    and r: "r = (if t \<noteq> 0 then t else record_last_tick s index)"
    and set: "r \<noteq> 0" and pending: "c \<noteq> 0"
    and rd: "now w1 = (tn, w2)"
    and window: "el r tn > 500000 * tick_count_in_1us a"
  shows "desicion_by_pressed_count a index s w =
    Inr (s1\<lparr>check_last_tick := t,
             record_last_tick := (record_last_tick s)(index := 0),
             press_count := (press_count s)(index := 0),
             dispatched := dispatched s1 @
               (if c = 1 then [(BUTTON_NORMAL_PRESS, index)]
                else if c = 2 then [(BUTTON_DOUBLE_PRESS, index)] else [])\<rparr>,
         if c = 1 then cb BUTTON_NORMAL_PRESS index w2
         else if c = 2 then cb BUTTON_DOUBLE_PRESS index w2 else w2)"
proof -
  have fr: "record_last_tick s1 = record_last_tick s" "press_count s1 = press_count s"
    using detect_the_press_frame [OF det] by simp_all
  have pos: "0 < c" using pending by (simp add: word_greater_zero_iff)
  show ?thesis
  proof (cases "t = 0")
    case True
    with r have r': "record_last_tick s index = r" by simp
    show ?thesis
      using idx el now cb set pos rd window True
      by (simp add: desicion_by_pressed_count_def det commit_pressed_count_def TICK_DIFF_def
          DETECT_SINGLE_BUTTON_PRESS_IN_US_def Let_def fr r')
  next
    case False
    with r have r': "t = r" by simp
    show ?thesis
      using idx el now cb set pos rd window False
      by (simp add: desicion_by_pressed_count_def det commit_pressed_count_def TICK_DIFF_def
          DETECT_SINGLE_BUTTON_PRESS_IN_US_def Let_def fr r')
  qed
qed

text \<open>
  C2, as claimed: whenever the elapsed ticks since the line's recorded confirmation tick
  exceed the multi-click window and the counter is not zero, \<^verbatim>\<open>button_process\<close> commits. On
  the board, a first press is confirmed at tick 23002 (counter 1) and a second one has
  its edges at 400000 and 405000. The \<^verbatim>\<open>button_process\<close> at tick 525000 finds the recorded
  tick 501998 ticks old, beyond the window of 500000, and the counter at 1; it classifies
  the second press first, which replaces the recorded tick by 525002 and raises the
  counter to 2, and commits nothing.
\<close>

theorem commit_missed_by_new_confirmation:
  "pending_by
     (run [Initialize (Some (demo_api BUTTON_INTERRUPT_MODE_BOTH_EDGES)),
           at_tick 1000, Isr (Some (demo_pin BUTTON_INTERRUPT_MODE_BOTH_EDGES 0)),
           at_tick 12000, Isr (Some (demo_pin BUTTON_INTERRUPT_MODE_BOTH_EDGES 0)),
           at_tick 23000, Process,
           at_tick 400000, Isr (Some (demo_pin BUTTON_INTERRUPT_MODE_BOTH_EDGES 0)),
           at_tick 405000, Isr (Some (demo_pin BUTTON_INTERRUPT_MODE_BOTH_EDGES 0))]
        initial_driver released) 0
     = Some (23002, 1)
   \<and> tick_elapsed 23002 525000
       > 500000 * tick_count_in_1us (demo_api BUTTON_INTERRUPT_MODE_BOTH_EDGES)
   \<and> dispatched_by
     (run [Initialize (Some (demo_api BUTTON_INTERRUPT_MODE_BOTH_EDGES)),
           at_tick 1000, Isr (Some (demo_pin BUTTON_INTERRUPT_MODE_BOTH_EDGES 0)),
           at_tick 12000, Isr (Some (demo_pin BUTTON_INTERRUPT_MODE_BOTH_EDGES 0)),
           at_tick 23000, Process,
           at_tick 400000, Isr (Some (demo_pin BUTTON_INTERRUPT_MODE_BOTH_EDGES 0)),
           at_tick 405000, Isr (Some (demo_pin BUTTON_INTERRUPT_MODE_BOTH_EDGES 0)),
           at_tick 525000, Process]
        initial_driver released)
     = Some []
   \<and> pending_by
     (run [Initialize (Some (demo_api BUTTON_INTERRUPT_MODE_BOTH_EDGES)),
           at_tick 1000, Isr (Some (demo_pin BUTTON_INTERRUPT_MODE_BOTH_EDGES 0)),
           at_tick 12000, Isr (Some (demo_pin BUTTON_INTERRUPT_MODE_BOTH_EDGES 0)),
           at_tick 23000, Process,
           at_tick 400000, Isr (Some (demo_pin BUTTON_INTERRUPT_MODE_BOTH_EDGES 0)),
           at_tick 405000, Isr (Some (demo_pin BUTTON_INTERRUPT_MODE_BOTH_EDGES 0)),
           at_tick 525000, Process]
        initial_driver released) 0
     = Some (525002, 2)"
  by (simp add: demo_defs driver_defs Let_def)

text \<open>
  C2, amended. In a call of \<^verbatim>\<open>button_process\<close> on an initialised driver, for a configured
  line \<open>i\<close>, the commit check looks at the counter and the recorded confirmation tick as
  the classifier has left them in the same call: as they were when the classifier
  confirmed no short press, else the counter one higher and, when the tick of that
  confirmation is not 0, that tick recorded instead. Whenever, so taken, a confirmation
  tick is recorded (\<open>r\<close> is not 0), the elapsed ticks from it to the tick read exceed the
  multi-click window and the counter \<open>c\<close> is not zero, the call commits once for the line:
  it dispatches exactly one \<^verbatim>\<open>BUTTON_NORMAL_PRESS\<close> if the counter is 1, exactly one
  \<^verbatim>\<open>BUTTON_DOUBLE_PRESS\<close> if it is 2, and no event if it is 3 or more, and in all three
  cases the counter and the recorded tick of the line are cleared, and are still so at the
  end of the call.
\<close>

theorem button_process_commits:
  assumes ready: "button_init_status s = SUCCESS" "p_api s = Some a"
    and line: "i < unat (size_of_buttons a)" "i < BUTTON_MAX"
    and el: "fp_tick_elapsed a = Some el"
    and now: "fp_get_current_tick a = Some now"
    and cb: "fp_event_callback a = Some cb"
    and rd: "fp_read_button a = Some rd"
    and before: "button_process_upto a i s w = Inr (sa, wa)"
    and level: "rd (button_pins a i) wa = (lvl, wl)"
    and capture: "poll_capture a i (if active_high a \<noteq> 0 then lvl = 1 else lvl = 0) sa wl
                  = Inr (sb, wb)"
    and det: "detect_the_press a i (press_count sb i) sb wb = Inr (t, c, s1, w1)"
    and r: "r = (if t \<noteq> 0 then t else record_last_tick sb i)"
    and set: "r \<noteq> 0" and pending: "c \<noteq> 0"
    and rn: "now w1 = (tn, w2)"
    and window: "el r tn > 500000 * tick_count_in_1us a"
  shows "button_process s w =
      button_process_from a (Suc i)
        (s1\<lparr>check_last_tick := t,
            record_last_tick := (record_last_tick sb)(i := 0),
            press_count := (press_count sb)(i := 0),
            dispatched := dispatched s1 @
              (if c = 1 then [(BUTTON_NORMAL_PRESS, i)]
               else if c = 2 then [(BUTTON_DOUBLE_PRESS, i)] else [])\<rparr>)
        (if c = 1 then cb BUTTON_NORMAL_PRESS i w2
         else if c = 2 then cb BUTTON_DOUBLE_PRESS i w2 else w2)
    \<and> (button_process s w = Inr (s', w')
        \<longrightarrow> press_count s' i = 0 \<and> record_last_tick s' i = 0
          \<and> dispatched_count BUTTON_NORMAL_PRESS i s'
              = dispatched_count BUTTON_NORMAL_PRESS i s + (if c = 1 then 1 else 0)
          \<and> dispatched_count BUTTON_DOUBLE_PRESS i s'
              = dispatched_count BUTTON_DOUBLE_PRESS i s + (if c = 2 then 1 else 0))"
proof -
  let ?C = "s1\<lparr>check_last_tick := t,
            record_last_tick := (record_last_tick sb)(i := 0),
            press_count := (press_count sb)(i := 0),
            dispatched := dispatched s1 @
              (if c = 1 then [(BUTTON_NORMAL_PRESS, i)]
               else if c = 2 then [(BUTTON_DOUBLE_PRESS, i)] else [])\<rparr>"
  let ?W = "if c = 1 then cb BUTTON_NORMAL_PRESS i w2
         else if c = 2 then cb BUTTON_DOUBLE_PRESS i w2 else w2"
  have dec: "desicion_by_pressed_count a i sb wb = Inr (?C, ?W)"
    using desicion_by_pressed_count_verdict [OF line(2) el now cb det r set pending rn window] .
  have ln: "button_process_line a i sa wa = Inr (?C, ?W)"
    using line(2) rd level capture dec by (simp add: button_process_line_def)
  have eq: "button_process s w = button_process_from a (Suc i) ?C ?W"
    using button_process_at_line [OF ready line(1) before] ln by simp
  have fin: "press_count s' i = 0 \<and> record_last_tick s' i = 0
      \<and> dispatched_count BUTTON_NORMAL_PRESS i s'
          = dispatched_count BUTTON_NORMAL_PRESS i s + (if c = 1 then 1 else 0)
      \<and> dispatched_count BUTTON_DOUBLE_PRESS i s'
          = dispatched_count BUTTON_DOUBLE_PRESS i s + (if c = 2 then 1 else 0)"
    if res: "button_process s w = Inr (s', w')"
  proof -
    from res eq have rest: "button_process_from a (Suc i) ?C ?W = Inr (s', w')" by simp
    have u1: "line_untouched i s sa"
      using button_process_upto_untouched [OF _ before] by simp
    have u2: "line_untouched i ?C s'"
      using button_process_from_untouched [OF _ rest] by simp
    have d: "dispatched sb = dispatched sa"
      using poll_capture_own [OF capture] by simp
    have n1: "dispatched_count ty i sb = dispatched_count ty i s" for ty
      using u1 d by (simp add: line_untouched_def dispatched_count_def)
    note ev = detect_the_press_events [OF det, of i]
    have "press_count s' i = 0" "record_last_tick s' i = 0"
      using u2 by (simp_all add: line_untouched_def)
    moreover have "dispatched_count BUTTON_NORMAL_PRESS i s'
        = dispatched_count BUTTON_NORMAL_PRESS i s + (if c = 1 then 1 else 0)"
      using u2 ev n1 [of BUTTON_NORMAL_PRESS]
      by (simp add: line_untouched_def) (simp add: dispatched_count_def)
    moreover have "dispatched_count BUTTON_DOUBLE_PRESS i s'
        = dispatched_count BUTTON_DOUBLE_PRESS i s + (if c = 2 then 1 else 0)"
      using u2 ev n1 [of BUTTON_DOUBLE_PRESS]
      by (simp add: line_untouched_def) (simp add: dispatched_count_def)
    ultimately show ?thesis by simp
  qed
  from eq fin show ?thesis by blast
qed

theorem button_process_commits_witness:
  "button_process (demo_driver BUTTON_INTERRUPT_MODE_BOTH_EDGES 0 0 23000 1)
      (released\<lparr>clock := 523001\<rparr>)
    = Inr ((demo_driver BUTTON_INTERRUPT_MODE_BOTH_EDGES 0 0 0 0)
             \<lparr>dispatched := [(BUTTON_NORMAL_PRESS, 0)]\<rparr>, released\<lparr>clock := 523002\<rparr>)
   \<and> dispatched_count BUTTON_NORMAL_PRESS 0
        ((demo_driver BUTTON_INTERRUPT_MODE_BOTH_EDGES 0 0 0 0)
           \<lparr>dispatched := [(BUTTON_NORMAL_PRESS, 0)]\<rparr>)
      = dispatched_count BUTTON_NORMAL_PRESS 0
          (demo_driver BUTTON_INTERRUPT_MODE_BOTH_EDGES 0 0 23000 1) + 1
   \<and> button_process (demo_driver BUTTON_INTERRUPT_MODE_BOTH_EDGES 0 0 73000 2)
      (released\<lparr>clock := 573001\<rparr>)
    = Inr ((demo_driver BUTTON_INTERRUPT_MODE_BOTH_EDGES 0 0 0 0)
             \<lparr>dispatched := [(BUTTON_DOUBLE_PRESS, 0)]\<rparr>, released\<lparr>clock := 573002\<rparr>)
   \<and> button_process (demo_driver BUTTON_INTERRUPT_MODE_BOTH_EDGES 0 0 73000 3)
      (released\<lparr>clock := 573001\<rparr>)
    = Inr (demo_driver BUTTON_INTERRUPT_MODE_BOTH_EDGES 0 0 0 0, released\<lparr>clock := 573002\<rparr>)"
proof -
  let ?m = "BUTTON_INTERRUPT_MODE_BOTH_EDGES"
  let ?a = "demo_api ?m"
  let ?w = "\<lambda>t. released\<lparr>clock := t\<rparr>"
  have line: "0 < unat (size_of_buttons ?a)" "(0::nat) < BUTTON_MAX"
    and caps: "fp_tick_elapsed ?a = Some tick_elapsed"
      "fp_get_current_tick ?a = Some get_current_tick"
      "fp_event_callback ?a = Some button_event_callback"
      "fp_read_button ?a = Some read_button"
    by (simp_all add: demo_defs)
  have ready: "button_init_status (demo_driver ?m 0 0 r c) = SUCCESS"
      "p_api (demo_driver ?m 0 0 r c) = Some ?a" for r c
    by (simp_all add: demo_defs)
  have before: "button_process_upto ?a 0 d v = Inr (d, v)" for d v
    by simp
  have level: "read_button (button_pins ?a 0) (?w t) = (1, ?w t)" for t
    by (simp add: demo_defs)
  have capture: "poll_capture ?a 0 (if active_high ?a \<noteq> 0 then (1::s32) = 1 else (1::s32) = 0) d v
      = Inr (d, v)" for d v
    by (simp add: poll_capture_def demo_defs)
  have det: "detect_the_press ?a 0 (press_count (demo_driver ?m 0 0 r c) 0) (demo_driver ?m 0 0 r c) v
      = Inr (0, c, demo_driver ?m 0 0 r c, v)" for r c v
    by (simp add: detect_the_press_def demo_defs)
  have tick: "get_current_tick (?w t) = (t, ?w (t + 1))" for t
    by (simp add: demo_defs)
  note inst = button_process_commits [OF ready line caps before level capture det refl _ _ tick]
  have one: "button_process (demo_driver ?m 0 0 23000 1) (?w 523001)
      = Inr ((demo_driver ?m 0 0 0 0)\<lparr>dispatched := [(BUTTON_NORMAL_PRESS, 0)]\<rparr>, ?w 523002)"
    using inst [of 23000 1 523001]
    by (simp add: loop_defs demo_defs fun_upd_idem)
  have one_count: "dispatched_count BUTTON_NORMAL_PRESS 0
        ((demo_driver ?m 0 0 0 0)\<lparr>dispatched := [(BUTTON_NORMAL_PRESS, 0)]\<rparr>)
      = dispatched_count BUTTON_NORMAL_PRESS 0 (demo_driver ?m 0 0 23000 1) + 1"
    using inst [of 23000 1 523001
        "(demo_driver ?m 0 0 0 0)\<lparr>dispatched := [(BUTTON_NORMAL_PRESS, 0)]\<rparr>" "?w 523002"] one
    by (simp add: demo_defs)
  have two: "button_process (demo_driver ?m 0 0 73000 2) (?w 573001)
      = Inr ((demo_driver ?m 0 0 0 0)\<lparr>dispatched := [(BUTTON_DOUBLE_PRESS, 0)]\<rparr>, ?w 573002)"
    using inst [of 73000 2 573001]
    by (simp add: loop_defs demo_defs fun_upd_idem)
  have three: "button_process (demo_driver ?m 0 0 73000 3) (?w 573001)
      = Inr (demo_driver ?m 0 0 0 0, ?w 573002)"
    using inst [of 73000 3 573001]
    by (simp add: loop_defs demo_defs fun_upd_idem)
  from one one_count two three show ?thesis by simp
qed


section \<open>Debounce\<close>

text \<open>
  C4, as claimed: a capture cycle whose bounded interval, the elapsed ticks from \<^verbatim>\<open>first\<close> to
  \<^verbatim>\<open>last\<close>, is below a positive debounce threshold never produces an event. The code does
  not compare that interval with the debounce threshold anywhere. On the board: edges at
  ticks 1000 and 2000 (an interval of 1000 ticks, the threshold being 10000), a
  \<^verbatim>\<open>button_process\<close> at tick 13000 and one at tick 600000 dispatch a \<^verbatim>\<open>BUTTON_NORMAL_PRESS\<close>.
\<close>

theorem short_cycle_dispatches:
  "0 < debounce_us (demo_api BUTTON_INTERRUPT_MODE_BOTH_EDGES)
        * tick_count_in_1us (demo_api BUTTON_INTERRUPT_MODE_BOTH_EDGES)
   \<and> tick_elapsed 1000 2000
      < debounce_us (demo_api BUTTON_INTERRUPT_MODE_BOTH_EDGES)
        * tick_count_in_1us (demo_api BUTTON_INTERRUPT_MODE_BOTH_EDGES)
   \<and> dispatched_by
        (run [Initialize (Some (demo_api BUTTON_INTERRUPT_MODE_BOTH_EDGES)),
              at_tick 1000, Isr (Some (demo_pin BUTTON_INTERRUPT_MODE_BOTH_EDGES 0)),
              at_tick 2000, Isr (Some (demo_pin BUTTON_INTERRUPT_MODE_BOTH_EDGES 0)),
              at_tick 13000, Process,
              at_tick 600000, Process]
           initial_driver released)
      = Some [(BUTTON_NORMAL_PRESS, 0)]"
  by (simp add: demo_defs driver_defs Let_def)

text \<open>
  C4, amended: what the debounce threshold holds back is the verdict on a line that has
  not been quiet for long enough. For a line with both timestamps set, in a call where
  the elapsed ticks from \<^verbatim>\<open>last\<close> to the tick read do not exceed the debounce threshold in
  ticks, \<^verbatim>\<open>detect_the_press\<close> dispatches nothing and changes nothing, and
  \<^verbatim>\<open>desicion_by_pressed_count\<close> does no more than the commit of the presses counted earlier.
\<close>

theorem debounce_holds_back_cycle:
  assumes idx: "index < BUTTON_MAX"
    and el: "fp_tick_elapsed a = Some el"
    and now: "fp_get_current_tick a = Some now"
    and both: "first (pressed_tick s index) \<noteq> 0" "last_tick (pressed_tick s index) \<noteq> 0"
    and r1: "now w = (t1, w1)"
    and quiet: "el (last_tick (pressed_tick s index)) t1 \<le> debounce_us a * tick_count_in_1us a"
  shows "detect_the_press a index count s w = Inr (0, count, s, w1)
    \<and> desicion_by_pressed_count a index s w
        = commit_pressed_count a index (s\<lparr>check_last_tick := 0\<rparr>) w1"
proof -
  have det: "detect_the_press a index c s w = Inr (0, c, s, w1)" for c
    using assms by (simp add: detect_the_press_def TICK_DIFF_def not_less [symmetric])
  have "desicion_by_pressed_count a index s w
      = commit_pressed_count a index (s\<lparr>check_last_tick := 0\<rparr>) w1"
    using idx by (simp add: desicion_by_pressed_count_def det)
  with det show ?thesis by simp
qed

theorem debounce_holds_back_cycle_witness:
  "detect_the_press (demo_api BUTTON_INTERRUPT_MODE_BOTH_EDGES) 0 0
      (demo_driver BUTTON_INTERRUPT_MODE_BOTH_EDGES 1000 2000 0 0) (released\<lparr>clock := 12000\<rparr>)
    = Inr (0, 0, demo_driver BUTTON_INTERRUPT_MODE_BOTH_EDGES 1000 2000 0 0, released\<lparr>clock := 12001\<rparr>)
   \<and> desicion_by_pressed_count (demo_api BUTTON_INTERRUPT_MODE_BOTH_EDGES) 0
      (demo_driver BUTTON_INTERRUPT_MODE_BOTH_EDGES 1000 2000 0 0) (released\<lparr>clock := 12000\<rparr>)
    = Inr (demo_driver BUTTON_INTERRUPT_MODE_BOTH_EDGES 1000 2000 0 0, released\<lparr>clock := 12001\<rparr>)"
proof -
  let ?m = "BUTTON_INTERRUPT_MODE_BOTH_EDGES"
  have caps: "(0::nat) < BUTTON_MAX" "fp_tick_elapsed (demo_api ?m) = Some tick_elapsed"
    "fp_get_current_tick (demo_api ?m) = Some get_current_tick"
    by (simp_all add: demo_defs)
  have idle: "commit_pressed_count (demo_api ?m) 0 ((demo_driver ?m 1000 2000 0 0)\<lparr>check_last_tick := 0\<rparr>) w
      = Inr (demo_driver ?m 1000 2000 0 0, w)" for w
    by (simp add: commit_pressed_count_def demo_defs)
  show ?thesis
    using debounce_holds_back_cycle [OF caps, of "demo_driver ?m 1000 2000 0 0"
        "released\<lparr>clock := 12000\<rparr>" 12000 "released\<lparr>clock := 12001\<rparr>" 0]
    by (simp add: idle) (simp add: demo_defs)
qed

section \<open>Before initialisation\<close>

lemma button_initialize_status_independent:
  "fst (button_initialize p s) = fst (button_initialize p s')"
  by (cases p) (auto simp: button_initialize_def Let_def)

lemma step_uninitialised:
  assumes "button_init_status s = FAIL" and "\<not> successful_initialize c"
  shows "step c s w = Inr (s, platform_after [c] w)"
proof (cases c)
  case (Initialize p)
  with assms(2) have "fst (button_initialize p s) \<noteq> SUCCESS"
    using button_initialize_status_independent [of p s initial_driver] by simp
  with assms(1) have "snd (button_initialize p s) = s"
    by (auto simp: button_initialize_def Let_def split: option.splits if_splits)
  with Initialize show ?thesis by simp
next
  case (Isr p)
  with assms(1) show ?thesis by (simp add: button_isr_def split: option.splits)
next
  case Process
  with assms(1) show ?thesis by (simp add: button_process_def)
next
  case (Platform f)
  then show ?thesis by simp
qed

lemma platform_after_Cons:
  "platform_after (c # cs) w = platform_after cs (platform_after [c] w)"
  by (cases c) simp_all

lemma run_uninitialised:
  assumes "button_init_status s = FAIL" and "\<forall>c\<in>set cs. \<not> successful_initialize c"
  shows "run cs s w = Inr (s, platform_after cs w)"
  using assms
proof (induction cs arbitrary: w)
  case Nil
  then show ?case by simp
next
  case (Cons c cs)
  then have "step c s w = Inr (s, platform_after [c] w)"
    by (simp add: step_uninitialised)
  with Cons show ?case
    using platform_after_Cons [of c cs w] by simp
qed

text \<open>
  C7. Before any successful call of \<^verbatim>\<open>button_initialize\<close>, every sequence of \<^verbatim>\<open>button_isr\<close>
  and \<^verbatim>\<open>button_process\<close> calls is a no-op: from the initial driver, a run of such calls,
  of calls of \<^verbatim>\<open>button_initialize\<close> that fail and of steps of the platform ends in the
  initial driver (timestamps, counters and the list of dispatched events as they were),
  and the platform has seen its own steps only: no capability was called.
\<close>

theorem calls_before_initialize_change_nothing:
  assumes "\<forall>c\<in>set cs. \<not> successful_initialize c"
  shows "run cs initial_driver w = Inr (initial_driver, platform_after cs w)"
  using assms by (simp add: run_uninitialised initial_driver_def)

theorem calls_before_initialize_change_nothing_witness:
  "run [Isr (Some (demo_pin BUTTON_INTERRUPT_MODE_BOTH_EDGES 0)), at_tick 5000,
        Isr (Some (demo_pin BUTTON_INTERRUPT_MODE_BOTH_EDGES 0)), Process, Initialize None,
        Initialize (Some ((demo_api BUTTON_INTERRUPT_MODE_BOTH_EDGES)\<lparr>size_of_buttons := 0\<rparr>)),
        at_tick 700000, Process, Isr None]
     initial_driver released
   = Inr (initial_driver, released\<lparr>clock := 700000\<rparr>)"
  using calls_before_initialize_change_nothing
    [of "[Isr (Some (demo_pin BUTTON_INTERRUPT_MODE_BOTH_EDGES 0)), at_tick 5000,
        Isr (Some (demo_pin BUTTON_INTERRUPT_MODE_BOTH_EDGES 0)), Process, Initialize None,
        Initialize (Some ((demo_api BUTTON_INTERRUPT_MODE_BOTH_EDGES)\<lparr>size_of_buttons := 0\<rparr>)),
        at_tick 700000, Process, Isr None]" released]
  by (simp add: button_initialize_def at_tick_def demo_api_def released_def)

section \<open>Initialisation\<close>

text \<open>
  C8, as claimed: a failing call of \<^verbatim>\<open>button_initialize\<close> has no effect on the driver, and a
  driver that is ready never goes back to uninitialised. The first statement of
  \<^verbatim>\<open>button_initialize\<close> sets the status to \<^verbatim>\<open>FAIL\<close>: a call with a \<^verbatim>\<open>NULL\<close> pointer on a ready
  driver returns \<^verbatim>\<open>FAIL\<close> and leaves the status \<^verbatim>\<open>FAIL\<close>.
\<close>

theorem failed_initialize_resets_ready:
  "button_init_status
     (snd (button_initialize (Some (demo_api BUTTON_INTERRUPT_MODE_BOTH_EDGES)) initial_driver))
     = SUCCESS
   \<and> fst (button_initialize None
         (snd (button_initialize (Some (demo_api BUTTON_INTERRUPT_MODE_BOTH_EDGES)) initial_driver)))
     = FAIL
   \<and> button_init_status
       (snd (button_initialize None
         (snd (button_initialize (Some (demo_api BUTTON_INTERRUPT_MODE_BOTH_EDGES)) initial_driver))))
     = FAIL"
  by (simp add: button_initialize_def demo_api_def Let_def)

text \<open>
  C8, amended: \<^verbatim>\<open>button_initialize\<close> returns \<^verbatim>\<open>SUCCESS\<close> exactly when the pointer is not
  \<^verbatim>\<open>NULL\<close>, \<^verbatim>\<open>size_of_buttons\<close> is positive and the tick source and the event callback are
  not \<^verbatim>\<open>NULL\<close>. A successful call stores the pointer and sets the status to \<^verbatim>\<open>SUCCESS\<close>; a
  failing call returns \<^verbatim>\<open>FAIL\<close>, sets the status to \<^verbatim>\<open>FAIL\<close> whatever it was, and changes
  nothing else of the driver.
\<close>

theorem button_initialize_result:
  "(fst (button_initialize p s) = SUCCESS
      \<longleftrightarrow> (\<exists>a. p = Some a \<and> size_of_buttons a > 0
                \<and> fp_get_current_tick a \<noteq> None \<and> fp_event_callback a \<noteq> None))
   \<and> (fst (button_initialize p s) = SUCCESS
        \<longrightarrow> snd (button_initialize p s) = s\<lparr>p_api := p, button_init_status := SUCCESS\<rparr>)
   \<and> (fst (button_initialize p s) \<noteq> SUCCESS
        \<longrightarrow> fst (button_initialize p s) = FAIL
          \<and> snd (button_initialize p s) = s\<lparr>button_init_status := FAIL\<rparr>)"
  by (cases p) (auto simp: button_initialize_def Let_def)

theorem button_initialize_result_witness:
  "fst (button_initialize (Some (demo_api BUTTON_INTERRUPT_MODE_BOTH_EDGES)) initial_driver) = SUCCESS
   \<and> snd (button_initialize (Some (demo_api BUTTON_INTERRUPT_MODE_BOTH_EDGES)) initial_driver)
      = initial_driver\<lparr>p_api := Some (demo_api BUTTON_INTERRUPT_MODE_BOTH_EDGES),
                       button_init_status := SUCCESS\<rparr>
   \<and> fst (button_initialize None (demo_driver BUTTON_INTERRUPT_MODE_BOTH_EDGES 0 0 0 0)) = FAIL
   \<and> snd (button_initialize None (demo_driver BUTTON_INTERRUPT_MODE_BOTH_EDGES 0 0 0 0))
      = (demo_driver BUTTON_INTERRUPT_MODE_BOTH_EDGES 0 0 0 0)\<lparr>button_init_status := FAIL\<rparr>"
proof -
  let ?a = "demo_api BUTTON_INTERRUPT_MODE_BOTH_EDGES"
  have ok: "\<exists>a. Some ?a = Some a \<and> size_of_buttons a > 0
      \<and> fp_get_current_tick a \<noteq> None \<and> fp_event_callback a \<noteq> None"
    by (simp add: demo_api_def)
  have no: "\<not> (\<exists>a. (None :: board button_api_t option) = Some a \<and> size_of_buttons a > 0
      \<and> fp_get_current_tick a \<noteq> None \<and> fp_event_callback a \<noteq> None)"
    by simp
  show ?thesis
    using button_initialize_result [of "Some ?a" initial_driver] ok
      button_initialize_result [of None "demo_driver BUTTON_INTERRUPT_MODE_BOTH_EDGES 0 0 0 0"] no
    by blast
qed

section \<open>Edge capture in rising-edge mode\<close>

text \<open>
  C5, as claimed: in both capture paths a line in rising-edge mode gets the current tick
  written into \<^verbatim>\<open>first\<close> when \<^verbatim>\<open>first\<close> is unset, and nothing else. In \<^verbatim>\<open>button_isr\<close> the
  rising-edge case writes \<^verbatim>\<open>last\<close>: after one interrupt at tick 7000 on a fresh driver,
  \<^verbatim>\<open>first\<close> is still 0 and \<^verbatim>\<open>last\<close> is 7000.
\<close>

theorem rising_isr_writes_last:
  "timestamps_by
     (run [Initialize (Some (demo_api BUTTON_INTERRUPT_MODE_RISING_EDGE)),
           at_tick 7000, Isr (Some (demo_pin BUTTON_INTERRUPT_MODE_RISING_EDGE 0))]
        initial_driver released) 0
   = Some \<lparr>first = 0, last_tick = 7000\<rparr>"
  by (simp add: demo_defs driver_defs Let_def)

text \<open>
  C5, amended: for a line in rising-edge mode, the switch of \<^verbatim>\<open>button_process\<close> writes the
  tick read into \<^verbatim>\<open>first\<close> when the level reads as pressed and \<^verbatim>\<open>first\<close> is unset, and
  writes nothing otherwise; \<^verbatim>\<open>button_isr\<close>, called with a rising-edge pin that it finds
  among the configured ones, writes the tick read into \<^verbatim>\<open>last\<close> when \<^verbatim>\<open>last\<close> is unset, and
  writes nothing otherwise. (The interrupt supplies the release, the poll the press.)
\<close>

theorem rising_edge_capture:
  assumes now: "fp_get_current_tick a = Some now" and rd: "now w = (t, w')"
  shows "(interrupt_mode (button_pins a i) = BUTTON_INTERRUPT_MODE_RISING_EDGE
        \<longrightarrow> poll_capture a i pressed s w
            = (if pressed \<and> first (pressed_tick s i) = 0
               then Inr (s\<lparr>pressed_tick := (pressed_tick s)(i := (pressed_tick s i)\<lparr>first := t\<rparr>)\<rparr>, w')
               else Inr (s, w)))
    \<and> (interrupt_mode p = BUTTON_INTERRUPT_MODE_RISING_EDGE \<and> button_init_status s = SUCCESS
        \<and> p_api s = Some a \<and> find_pin_id a (pin p) = Inr (Some inx)
        \<longrightarrow> button_isr (Some p) s w
            = (if last_tick (pressed_tick s inx) = 0
               then Inr (s\<lparr>pressed_tick :=
                           (pressed_tick s)(inx := (pressed_tick s inx)\<lparr>last_tick := t\<rparr>)\<rparr>, w')
               else Inr (s, w)))"
  using assms
  by (simp add: poll_capture_def button_isr_def stamp_def set_first_def set_last_def)

theorem rising_edge_capture_witness:
  "poll_capture (demo_api BUTTON_INTERRUPT_MODE_RISING_EDGE) 0 True
      (demo_driver BUTTON_INTERRUPT_MODE_RISING_EDGE 0 0 0 0) (released\<lparr>clock := 5000\<rparr>)
    = Inr (demo_driver BUTTON_INTERRUPT_MODE_RISING_EDGE 5000 0 0 0, released\<lparr>clock := 5001\<rparr>)
   \<and> button_isr (Some (demo_pin BUTTON_INTERRUPT_MODE_RISING_EDGE 0))
      (demo_driver BUTTON_INTERRUPT_MODE_RISING_EDGE 5000 0 0 0) (released\<lparr>clock := 9000\<rparr>)
    = Inr (demo_driver BUTTON_INTERRUPT_MODE_RISING_EDGE 5000 9000 0 0, released\<lparr>clock := 9001\<rparr>)"
proof -
  let ?m = "BUTTON_INTERRUPT_MODE_RISING_EDGE"
  have now: "fp_get_current_tick (demo_api ?m) = Some get_current_tick"
    by (simp add: demo_defs)
  have pin: "find_pin_id (demo_api ?m) (pin (demo_pin ?m 0)) = Inr (Some 0)"
    by (simp add: find_pin_id_def find_pin_id_from.simps demo_defs)
  have r1: "get_current_tick (released\<lparr>clock := 5000\<rparr>) = (5000, released\<lparr>clock := 5001\<rparr>)"
    and r2: "get_current_tick (released\<lparr>clock := 9000\<rparr>) = (9000, released\<lparr>clock := 9001\<rparr>)"
    by (simp_all add: demo_defs)
  have poll: "poll_capture (demo_api ?m) 0 True (demo_driver ?m 0 0 0 0) (released\<lparr>clock := 5000\<rparr>)
      = Inr (demo_driver ?m 5000 0 0 0, released\<lparr>clock := 5001\<rparr>)"
    using rising_edge_capture [OF now r1, of 0 True "demo_driver ?m 0 0 0 0"]
    by (simp add: demo_defs)
  have isr: "button_isr (Some (demo_pin ?m 0)) (demo_driver ?m 5000 0 0 0) (released\<lparr>clock := 9000\<rparr>)
      = Inr (demo_driver ?m 5000 9000 0 0, released\<lparr>clock := 9001\<rparr>)"
    using rising_edge_capture [OF now r2, of 0 True "demo_driver ?m 5000 0 0 0" "demo_pin ?m 0" 0] pin
    by (simp add: demo_defs)
  from poll isr show ?thesis by simp
qed

section \<open>The relation between the two timestamps\<close>

lemma stamp_set_first_inv:
  assumes "capture_inv s" and "first (pressed_tick s i) = 0" and "stamp a i set_first s w = Inr (s', w')"
  shows "capture_inv s'"
  using assms
  by (auto simp: capture_inv_def stamp_def set_first_def split: option.splits prod.splits if_splits)

lemma stamp_set_last_inv:
  assumes "capture_inv s" and "first (pressed_tick s i) \<noteq> 0" and "stamp a i set_last s w = Inr (s', w')"
  shows "capture_inv s'"
  using assms
  by (auto simp: capture_inv_def stamp_def set_last_def split: option.splits prod.splits if_splits)

lemma poll_capture_inv:
  assumes "capture_inv s" and "poll_capture a i pressed s w = Inr (s', w')"
  shows "capture_inv s'"
  using assms
  by (auto simp: poll_capture_def split: button_interrupt_mode_t.splits if_splits
      intro: stamp_set_first_inv stamp_set_last_inv)

lemma detect_the_press_ticks:
  assumes "detect_the_press a index count s w = Inr (t, c, s1, w1)"
  shows "pressed_tick s1 = pressed_tick s
    \<or> pressed_tick s1 = (pressed_tick s)(index := \<lparr>first = 0, last_tick = 0\<rparr>)"
  using assms
  by (auto simp: detect_the_press_def clear_ticks_def
      split: if_splits sum.splits option.splits prod.splits)

lemma commit_pressed_count_ticks:
  assumes "commit_pressed_count a index s w = Inr (s', w')"
  shows "pressed_tick s' = pressed_tick s"
  using assms
  by (auto simp: commit_pressed_count_def Let_def
      split: if_splits sum.splits option.splits prod.splits)

lemma desicion_by_pressed_count_ticks:
  assumes "desicion_by_pressed_count a index s w = Inr (s', w')"
  shows "pressed_tick s' = pressed_tick s
    \<or> pressed_tick s' = (pressed_tick s)(index := \<lparr>first = 0, last_tick = 0\<rparr>)"
proof -
  from assms obtain t c s1 w1 where
    det: "detect_the_press a index (press_count s index) s w = Inr (t, c, s1, w1)"
    and com: "commit_pressed_count a index
        (if t \<noteq> 0
         then s1\<lparr>check_last_tick := t, press_count := (press_count s1)(index := c),
                 record_last_tick := (record_last_tick s1)(index := t)\<rparr>
         else s1\<lparr>check_last_tick := t, press_count := (press_count s1)(index := c)\<rparr>) w1
        = Inr (s', w')"
    by (auto simp: desicion_by_pressed_count_def Let_def
        split: if_splits sum.splits prod.splits)
  from commit_pressed_count_ticks [OF com] have "pressed_tick s' = pressed_tick s1"
    by (simp split: if_splits)
  with detect_the_press_ticks [OF det] show ?thesis by simp
qed

lemma desicion_by_pressed_count_inv:
  assumes "capture_inv s" and "desicion_by_pressed_count a index s w = Inr (s', w')"
  shows "capture_inv s'"
  using assms(1) desicion_by_pressed_count_ticks [OF assms(2)]
  by (auto simp: capture_inv_def split: if_splits)


lemma button_process_line_inv:
  assumes inv: "capture_inv s" and line: "button_process_line a i s w = Inr (s', w')"
  shows "capture_inv s'"
proof -
  from line obtain rd where rd: "fp_read_button a = Some rd"
    by (auto simp: button_process_line_def split: if_splits option.splits)
  obtain lvl w1 where lv: "rd (button_pins a i) w = (lvl, w1)"
    by (cases "rd (button_pins a i) w")
  from line rd lv obtain s2 w2 where
    cap: "poll_capture a i (if active_high a \<noteq> 0 then lvl = 1 else lvl = 0) s w1 = Inr (s2, w2)"
    and dec: "desicion_by_pressed_count a i s2 w2 = Inr (s', w')"
    by (auto simp: button_process_line_def split: if_splits sum.splits)
  from poll_capture_inv [OF inv cap] have "capture_inv s2" .
  then show ?thesis using dec by (rule desicion_by_pressed_count_inv)
qed

lemma button_process_from_inv:
  assumes "capture_inv s" and "button_process_from a i s w = Inr (s', w')"
  shows "capture_inv s'"
  using assms
proof (induction a i s w rule: button_process_from.induct)
  case (1 a i s w)
  show ?case
  proof (cases "i < unat (size_of_buttons a)")
    case True
    with "1.prems"(2) obtain s1 w1 where
      line: "button_process_line a i s w = Inr (s1, w1)"
      and rest: "button_process_from a (i + 1) s1 w1 = Inr (s', w')"
      by (auto simp: button_process_from.simps [of a i s w] split: sum.splits)
    from button_process_line_inv [OF "1.prems"(1) line] have "capture_inv s1" .
    with "1.IH" True line rest show ?thesis by simp
  next
    case False
    with "1.prems" show ?thesis by (simp add: button_process_from.simps [of a i s w])
  qed
qed


lemma button_process_inv:
  assumes "capture_inv s" and "button_process s w = Inr (s', w')"
  shows "capture_inv s'"
  using assms
  by (auto simp: button_process_def split: if_splits option.splits
      dest: button_process_from_inv)

lemma button_isr_keeps:
  assumes inv: "capture_inv s" and nr: "\<not> rising_on_unset (Isr p) s"
    and isr: "button_isr p s w = Inr (s', w')"
  shows "capture_inv s'"
proof (cases p)
  case None
  with inv isr show ?thesis by (simp add: button_isr_def)
next
  case (Some q)
  show ?thesis
  proof (cases "mode_value (interrupt_mode q) > mode_value BUTTON_INTERRUPT_MODE_NONE
      \<and> button_init_status s = SUCCESS")
    case False
    with inv isr Some show ?thesis by (auto simp: button_isr_def)
  next
    case True
    with isr Some obtain a where a: "p_api s = Some a"
      by (auto simp: button_isr_def split: option.splits)
    show ?thesis
    proof (cases "find_pin_id a (pin q)")
      case (Inl e)
      with isr Some True a show ?thesis by (simp add: button_isr_def)
    next
      case (Inr r)
      show ?thesis
      proof (cases r)
        case None
        with inv isr Some True a Inr show ?thesis by (simp add: button_isr_def)
      next
        case (Some inx)
        have set: "first (pressed_tick s inx) \<noteq> 0"
          if "interrupt_mode q = BUTTON_INTERRUPT_MODE_RISING_EDGE"
          using that nr \<open>p = Some q\<close> True a Inr Some by simp
        with inv isr \<open>p = Some q\<close> True a Inr Some show ?thesis
          by (cases "interrupt_mode q")
            (auto simp: button_isr_def split: if_splits
              intro: stamp_set_first_inv stamp_set_last_inv)
      qed
    qed
  qed
qed

lemma button_initialize_ticks:
  "pressed_tick (snd (button_initialize p s)) = pressed_tick s"
  by (cases p) (auto simp: button_initialize_def Let_def)

lemma step_keeps:
  assumes "capture_inv s" and "\<not> rising_on_unset c s" and "step c s w = Inr (s', w')"
  shows "capture_inv s'"
proof (cases c)
  case (Initialize p)
  with assms(3) have "pressed_tick s' = pressed_tick s"
    using button_initialize_ticks [of p s] by auto
  with assms(1) show ?thesis by (simp add: capture_inv_def)
next
  case (Isr p)
  with assms show ?thesis by (auto dest: button_isr_keeps)
next
  case Process
  with assms show ?thesis by (auto dest: button_process_inv)
next
  case (Platform f)
  with assms show ?thesis by auto
qed

lemma run_keeps:
  assumes "capture_inv s" and "no_rising_on_unset cs s w" and "run cs s w = Inr (s', w')"
  shows "capture_inv s'"
  using assms
proof (induction cs arbitrary: s w)
  case Nil
  then show ?case by simp
next
  case (Cons c cs)
  from Cons.prems(3) obtain s1 w1 where
    st: "step c s w = Inr (s1, w1)" and rest: "run cs s1 w1 = Inr (s', w')"
    by (auto split: sum.splits)
  from Cons.prems(2) st have nr: "\<not> rising_on_unset c s" and ok: "no_rising_on_unset cs s1 w1"
    by simp_all
  from step_keeps [OF Cons.prems(1) nr st] have "capture_inv s1" .
  from Cons.IH [OF this ok rest] show ?case .
qed

text \<open>The three outcomes of \<^verbatim>\<open>detect_the_press\<close>.\<close>

lemma detect_the_press_outcomes:
  assumes "detect_the_press a index count s w = Inr (t, c, s1, w1)"
  shows "(s1 = s\<lparr>pressed_tick := (pressed_tick s)(index := \<lparr>first = 0, last_tick = 0\<rparr>),
                 dispatched := dispatched s @ [(BUTTON_LONG_PRESS, index)]\<rparr>
          \<and> c = count \<and> t = 0)
    \<or> (s1 = s\<lparr>pressed_tick := (pressed_tick s)(index := \<lparr>first = 0, last_tick = 0\<rparr>)\<rparr>
          \<and> c = count + 1)
    \<or> (s1 = s \<and> c = count \<and> t = 0)"
  using assms
  by (auto simp: detect_the_press_def clear_ticks_def
      split: if_splits sum.splits option.splits prod.splits)

text \<open>The initial driver, all timestamps 0, has the relation.\<close>

lemma capture_inv_initial: "capture_inv initial_driver"
  by (simp add: capture_inv_def initial_driver_def)


text \<open>
  C6, as claimed: from the initial state every operation keeps \<^verbatim>\<open>last\<close> unset while
  \<^verbatim>\<open>first\<close> is unset. One rising-edge interrupt on a fresh, initialised driver sets \<^verbatim>\<open>last\<close>
  to the tick 40000 while \<^verbatim>\<open>first\<close> is 0.
\<close>

theorem rising_isr_breaks_invariant:
  "capture_inv (initial_driver :: board driver)
   \<and> (case run [Initialize (Some (demo_api BUTTON_INTERRUPT_MODE_RISING_EDGE)),
                at_tick 40000, Isr (Some (demo_pin BUTTON_INTERRUPT_MODE_RISING_EDGE 0))]
             initial_driver released of
         Inl e \<Rightarrow> False
       | Inr (s, w) \<Rightarrow>
           first (pressed_tick s 0) = 0 \<and> last_tick (pressed_tick s 0) = 40000
           \<and> \<not> capture_inv s)"
  by (simp add: demo_defs driver_defs Let_def capture_inv_def)

text \<open>
  C6, amended: every operation keeps the relation, on every line, from any driver that has
  it (the initial one among them), except a \<^verbatim>\<open>button_isr\<close> call with a rising-edge pin on
  a line whose \<^verbatim>\<open>first\<close> is unset: a run that holds no such call (and may hold
  initialisations, any other interrupt, rising-edge interrupts on lines whose \<^verbatim>\<open>first\<close> is
  set, \<^verbatim>\<open>button_process\<close> and steps of the platform) ends in a driver that has the
  relation. And whenever a press cycle resolves, both timestamps are cleared together:
  every call of \<^verbatim>\<open>detect_the_press\<close>, the only place where a cycle is resolved, either
  dispatches a long press and clears both timestamps of its line, or counts a short press
  and clears both timestamps of its line, or changes nothing at all; the code has no other
  way, a discard included, of ending a cycle.
\<close>

theorem capture_invariant_preserved:
  "(capture_inv s \<and> no_rising_on_unset cs s w \<and> run cs s w = Inr (s', w')
      \<longrightarrow> capture_inv s')
   \<and> (detect_the_press a index count s0 w0 = Inr (t, c, s1, w1)
      \<longrightarrow> (s1 = s0\<lparr>pressed_tick := (pressed_tick s0)(index := \<lparr>first = 0, last_tick = 0\<rparr>),
                    dispatched := dispatched s0 @ [(BUTTON_LONG_PRESS, index)]\<rparr>
            \<and> c = count \<and> t = 0)
        \<or> (s1 = s0\<lparr>pressed_tick := (pressed_tick s0)(index := \<lparr>first = 0, last_tick = 0\<rparr>)\<rparr>
            \<and> c = count + 1)
        \<or> (s1 = s0 \<and> c = count \<and> t = 0))"
  using run_keeps [of s cs w s' w'] detect_the_press_outcomes [of a index count s0 w0 t c s1 w1]
  by blast


theorem capture_invariant_preserved_witness:
  "capture_inv (initial_driver :: board driver)
   \<and> no_rising_on_unset
        [Initialize (Some (demo_api BUTTON_INTERRUPT_MODE_RISING_EDGE)),
         Platform (\<lambda>b. b\<lparr>clock := 1000, level := 0\<rparr>), Process,
         Platform (\<lambda>b. b\<lparr>clock := 9000, level := 1\<rparr>),
         Isr (Some (demo_pin BUTTON_INTERRUPT_MODE_RISING_EDGE 0)),
         at_tick 30000, Process]
        initial_driver released
   \<and> (case run [Initialize (Some (demo_api BUTTON_INTERRUPT_MODE_RISING_EDGE)),
                Platform (\<lambda>b. b\<lparr>clock := 1000, level := 0\<rparr>), Process,
                Platform (\<lambda>b. b\<lparr>clock := 9000, level := 1\<rparr>),
                Isr (Some (demo_pin BUTTON_INTERRUPT_MODE_RISING_EDGE 0)),
                at_tick 30000, Process]
             initial_driver released of
         Inl e \<Rightarrow> False
       | Inr (s, w) \<Rightarrow> capture_inv s)
   \<and> (case detect_the_press (demo_api BUTTON_INTERRUPT_MODE_BOTH_EDGES) 0 0
              (demo_driver BUTTON_INTERRUPT_MODE_BOTH_EDGES 1000 12000 0 0)
              (released\<lparr>clock := 23000\<rparr>) of
         Inl e \<Rightarrow> False
       | Inr (t, c, s1, w1) \<Rightarrow>
           s1 = (demo_driver BUTTON_INTERRUPT_MODE_BOTH_EDGES 1000 12000 0 0)
                  \<lparr>pressed_tick :=
                     (pressed_tick (demo_driver BUTTON_INTERRUPT_MODE_BOTH_EDGES 1000 12000 0 0))
                       (0 := \<lparr>first = 0, last_tick = 0\<rparr>)\<rparr>
           \<and> c = 1)"
proof -
  let ?cs = "[Initialize (Some (demo_api BUTTON_INTERRUPT_MODE_RISING_EDGE)),
         Platform (\<lambda>b. b\<lparr>clock := 1000, level := 0\<rparr>), Process,
         Platform (\<lambda>b. b\<lparr>clock := 9000, level := 1\<rparr>),
         Isr (Some (demo_pin BUTTON_INTERRUPT_MODE_RISING_EDGE 0)),
         at_tick 30000, Process]"
  let ?d = "demo_driver BUTTON_INTERRUPT_MODE_BOTH_EDGES 1000 12000 0 0"
  have init: "capture_inv (initial_driver :: board driver)"
    by (simp add: capture_inv_def initial_driver_def)
  have calls: "no_rising_on_unset ?cs initial_driver released"
    by (simp add: demo_defs driver_defs Let_def)
  obtain s' w' where r: "run ?cs initial_driver released = Inr (s', w')"
    by (simp add: demo_defs driver_defs Let_def)
  have d: "detect_the_press (demo_api BUTTON_INTERRUPT_MODE_BOTH_EDGES) 0 0 ?d
      (released\<lparr>clock := 23000\<rparr>)
      = Inr (23002, 1, demo_driver BUTTON_INTERRUPT_MODE_BOTH_EDGES 0 0 0 0,
             released\<lparr>clock := 23003\<rparr>)"
    by (simp add: demo_defs driver_defs)
  from capture_invariant_preserved [of initial_driver ?cs released s' w'
      "demo_api BUTTON_INTERRUPT_MODE_BOTH_EDGES" 0 0 ?d "released\<lparr>clock := 23000\<rparr>"
      23002 1 "demo_driver BUTTON_INTERRUPT_MODE_BOTH_EDGES 0 0 0 0" "released\<lparr>clock := 23003\<rparr>"]
    init calls r d
  have kept: "capture_inv s'"
    and shape: "demo_driver BUTTON_INTERRUPT_MODE_BOTH_EDGES 0 0 0 0
        = ?d\<lparr>pressed_tick := (pressed_tick ?d)(0 := \<lparr>first = 0, last_tick = 0\<rparr>)\<rparr>"
    by (simp_all add: demo_driver_def)
  show ?thesis
    unfolding r d using init calls kept shape by simp
qed


section \<open>Capabilities that initialisation does not check\<close>

text \<open>
  C9, as claimed: \<^verbatim>\<open>button_initialize\<close> accepts a configuration whose \<^verbatim>\<open>fp_tick_elapsed\<close> and
  \<^verbatim>\<open>fp_read_button\<close> are \<^verbatim>\<open>NULL\<close>, and \<^verbatim>\<open>button_process\<close> then calls both for every configured
  line whatever the state. \<^verbatim>\<open>fp_tick_elapsed\<close> is called inside \<^verbatim>\<open>TICK_DIFF\<close> only, behind the
  tests on the timestamps and the counter: with \<^verbatim>\<open>fp_tick_elapsed\<close> \<^verbatim>\<open>NULL\<close> and idle lines,
  \<^verbatim>\<open>button_process\<close> runs through both lines and returns, the driver and the platform
  unchanged.
\<close>

theorem process_without_tick_elapsed:
  "fp_tick_elapsed ((demo_api BUTTON_INTERRUPT_MODE_BOTH_EDGES)\<lparr>fp_tick_elapsed := None\<rparr>) = None
   \<and> button_initialize
        (Some ((demo_api BUTTON_INTERRUPT_MODE_BOTH_EDGES)\<lparr>fp_tick_elapsed := None\<rparr>))
        initial_driver
      = (SUCCESS,
         initial_driver
           \<lparr>p_api := Some ((demo_api BUTTON_INTERRUPT_MODE_BOTH_EDGES)\<lparr>fp_tick_elapsed := None\<rparr>),
            button_init_status := SUCCESS\<rparr>)
   \<and> button_process
        (initial_driver
           \<lparr>p_api := Some ((demo_api BUTTON_INTERRUPT_MODE_BOTH_EDGES)\<lparr>fp_tick_elapsed := None\<rparr>),
            button_init_status := SUCCESS\<rparr>)
        released
      = Inr (initial_driver
               \<lparr>p_api := Some ((demo_api BUTTON_INTERRUPT_MODE_BOTH_EDGES)\<lparr>fp_tick_elapsed := None\<rparr>),
                button_init_status := SUCCESS\<rparr>,
             released)"
  by (simp add: demo_defs driver_defs Let_def fun_upd_idem)

text \<open>The switch of \<^verbatim>\<open>button_process\<close> writes timestamps only.\<close>

lemma poll_capture_frame:
  assumes "poll_capture a i pressed s w = Inr (s2, w2)"
  shows "record_last_tick s2 = record_last_tick s" "press_count s2 = press_count s"
  using assms
  by (auto simp: poll_capture_def stamp_def
      split: button_interrupt_mode_t.splits if_splits option.splits prod.splits)

text \<open>
  C9, amended: a configuration with a positive \<^verbatim>\<open>size_of_buttons\<close>, a tick source and an
  event callback is accepted whatever \<^verbatim>\<open>fp_tick_elapsed\<close> and \<^verbatim>\<open>fp_read_button\<close> are, \<^verbatim>\<open>NULL\<close>
  included. \<^verbatim>\<open>button_process\<close> calls \<^verbatim>\<open>fp_read_button\<close> for every configured line with no
  test: when it is \<^verbatim>\<open>NULL\<close> the call goes through a null pointer at the first line. It
  calls \<^verbatim>\<open>fp_tick_elapsed\<close> with no test for \<^verbatim>\<open>NULL\<close> either, but only for a line that,
  after the capture of this call, has both timestamps set, or that has a recorded
  confirmation tick and a counter that is not zero; for any other line the call is not
  made and the line is left as the capture left it.
\<close>

theorem unvalidated_capabilities:
  assumes size: "size_of_buttons a > 0"
    and now: "fp_get_current_tick a = Some now"
    and cb: "fp_event_callback a = Some cb"
  shows "button_initialize (Some a) s = (SUCCESS, s\<lparr>p_api := Some a, button_init_status := SUCCESS\<rparr>)
    \<and> (fp_read_button a = None
        \<longrightarrow> button_process (s\<lparr>p_api := Some a, button_init_status := SUCCESS\<rparr>) w
            = Inl NullFunctionPointer)
    \<and> (fp_tick_elapsed a = None \<and> i < BUTTON_MAX \<and> fp_read_button a = Some rd
        \<and> rd (button_pins a i) w = (lvl, w1)
        \<and> poll_capture a i (if active_high a \<noteq> 0 then lvl = 1 else lvl = 0) s0 w1 = Inr (s2, w2)
        \<longrightarrow> button_process_line a i s0 w
            = (if (first (pressed_tick s2 i) \<noteq> 0 \<and> last_tick (pressed_tick s2 i) \<noteq> 0)
                  \<or> (record_last_tick s0 i \<noteq> 0 \<and> press_count s0 i \<noteq> 0)
               then Inl NullFunctionPointer
               else Inr (s2\<lparr>check_last_tick := 0\<rparr>, w2)))"
proof (intro conjI impI)
  show "button_initialize (Some a) s
      = (SUCCESS, s\<lparr>p_api := Some a, button_init_status := SUCCESS\<rparr>)"
    using size now cb by (simp add: button_initialize_def Let_def)
next
  assume rd: "fp_read_button a = None"
  have "0 < unat (size_of_buttons a)"
    using size by (simp add: word_less_nat_alt)
  then show "button_process (s\<lparr>p_api := Some a, button_init_status := SUCCESS\<rparr>) w
      = Inl NullFunctionPointer"
    using rd
    by (simp add: button_process_def button_process_from.simps [of a 0] button_process_line_def
        BUTTON_MAX_def)
next
  assume h: "fp_tick_elapsed a = None \<and> i < BUTTON_MAX \<and> fp_read_button a = Some rd
        \<and> rd (button_pins a i) w = (lvl, w1)
        \<and> poll_capture a i (if active_high a \<noteq> 0 then lvl = 1 else lvl = 0) s0 w1 = Inr (s2, w2)"
  then have cap: "poll_capture a i (if active_high a \<noteq> 0 then lvl = 1 else lvl = 0) s0 w1
      = Inr (s2, w2)"
    by simp
  have pos: "(0 < press_count s0 i) = (press_count s0 i \<noteq> 0)"
    by (simp add: word_greater_zero_iff)
  note fr = poll_capture_frame [OF cap]
  show "button_process_line a i s0 w
      = (if (first (pressed_tick s2 i) \<noteq> 0 \<and> last_tick (pressed_tick s2 i) \<noteq> 0)
            \<or> (record_last_tick s0 i \<noteq> 0 \<and> press_count s0 i \<noteq> 0)
         then Inl NullFunctionPointer
         else Inr (s2\<lparr>check_last_tick := 0\<rparr>, w2))"
    using h now
    by (cases "now w2")
      (auto simp: button_process_line_def desicion_by_pressed_count_def detect_the_press_def
        commit_pressed_count_def TICK_DIFF_def pos fr)
qed


theorem unvalidated_capabilities_witness:
  "button_initialize
      (Some ((demo_api BUTTON_INTERRUPT_MODE_BOTH_EDGES)
               \<lparr>fp_tick_elapsed := None, fp_read_button := None\<rparr>))
      initial_driver
    = (SUCCESS,
       initial_driver
         \<lparr>p_api := Some ((demo_api BUTTON_INTERRUPT_MODE_BOTH_EDGES)
                           \<lparr>fp_tick_elapsed := None, fp_read_button := None\<rparr>),
          button_init_status := SUCCESS\<rparr>)
   \<and> button_process
       (initial_driver
         \<lparr>p_api := Some ((demo_api BUTTON_INTERRUPT_MODE_BOTH_EDGES)
                           \<lparr>fp_tick_elapsed := None, fp_read_button := None\<rparr>),
          button_init_status := SUCCESS\<rparr>)
       released
    = Inl NullFunctionPointer
   \<and> button_process_line ((demo_api BUTTON_INTERRUPT_MODE_BOTH_EDGES)\<lparr>fp_tick_elapsed := None\<rparr>) 0
       (demo_driver BUTTON_INTERRUPT_MODE_BOTH_EDGES 1000 12000 0 0) (released\<lparr>clock := 23000\<rparr>)
    = Inl NullFunctionPointer
   \<and> button_process_line ((demo_api BUTTON_INTERRUPT_MODE_BOTH_EDGES)\<lparr>fp_tick_elapsed := None\<rparr>) 0
       (demo_driver BUTTON_INTERRUPT_MODE_BOTH_EDGES 1000 0 0 0) (released\<lparr>clock := 23000\<rparr>)
    = Inr (demo_driver BUTTON_INTERRUPT_MODE_BOTH_EDGES 1000 0 0 0, released\<lparr>clock := 23000\<rparr>)"
proof -
  let ?m = "BUTTON_INTERRUPT_MODE_BOTH_EDGES"
  let ?a = "(demo_api ?m)\<lparr>fp_tick_elapsed := None, fp_read_button := None\<rparr>"
  let ?b = "(demo_api ?m)\<lparr>fp_tick_elapsed := None\<rparr>"
  let ?w = "released\<lparr>clock := 23000\<rparr>"
  have a: "size_of_buttons ?a > 0" "fp_get_current_tick ?a = Some get_current_tick"
    "fp_event_callback ?a = Some button_event_callback"
    and b: "size_of_buttons ?b > 0" "fp_get_current_tick ?b = Some get_current_tick"
    "fp_event_callback ?b = Some button_event_callback"
    by (simp_all add: demo_api_def)
  have cap: "poll_capture ?b 0 (if active_high ?b \<noteq> 0 then (1::s32) = 1 else (1::s32) = 0)
      (demo_driver ?m f l 0 0) ?w = Inr (demo_driver ?m f l 0 0, ?w)" for f l
    by (simp add: poll_capture_def demo_defs)
  have init: "button_initialize (Some ?a) initial_driver
      = (SUCCESS, initial_driver\<lparr>p_api := Some ?a, button_init_status := SUCCESS\<rparr>)"
    and null_read: "button_process (initial_driver\<lparr>p_api := Some ?a, button_init_status := SUCCESS\<rparr>)
      released = Inl NullFunctionPointer"
    using unvalidated_capabilities [OF a, of initial_driver released]
    by (simp_all add: demo_api_def)
  have null_elapsed: "button_process_line ?b 0 (demo_driver ?m 1000 12000 0 0) ?w
      = Inl NullFunctionPointer"
    using unvalidated_capabilities [OF b, of _ ?w 0 read_button 1 ?w
        "demo_driver ?m 1000 12000 0 0" "demo_driver ?m 1000 12000 0 0" ?w] cap [of 1000 12000]
    by (simp add: demo_defs)
  have idle: "button_process_line ?b 0 (demo_driver ?m 1000 0 0 0) ?w
      = Inr (demo_driver ?m 1000 0 0 0, ?w)"
    using unvalidated_capabilities [OF b, of _ ?w 0 read_button 1 ?w
        "demo_driver ?m 1000 0 0 0" "demo_driver ?m 1000 0 0 0" ?w] cap [of 1000 0]
    by (simp add: demo_defs)
  from init null_read null_elapsed idle show ?thesis by simp
qed

section \<open>A short press confirmed at tick 0\<close>

text \<open>
  C10, as claimed: when the tick source returns 0 at the moment a short press is
  confirmed, the counter stays pending with an unset confirmation tick, and no normal or
  double press is dispatched on account of that press until a later confirmation records
  a tick that is not 0. On the board, a first press is confirmed at tick 4294520002
  (counter 1). A second press is confirmed in the \<^verbatim>\<open>button_process\<close> call that starts at
  tick 4294967294, whose third read of the counter, the one of the confirmation, wraps
  to 0: the counter becomes 2, the recorded tick stays 4294520002, nothing is dispatched.
  The next \<^verbatim>\<open>button_process\<close>, at tick 200000 and with no further confirmation, dispatches
  \<^verbatim>\<open>BUTTON_DOUBLE_PRESS\<close>.
\<close>

theorem zero_tick_confirmation_commits_double:
  "pending_by
     (run [Initialize (Some (demo_api BUTTON_INTERRUPT_MODE_BOTH_EDGES)),
           at_tick 4294500000, Isr (Some (demo_pin BUTTON_INTERRUPT_MODE_BOTH_EDGES 0)),
           at_tick 4294505000, Isr (Some (demo_pin BUTTON_INTERRUPT_MODE_BOTH_EDGES 0)),
           at_tick 4294520000, Process,
           at_tick 4294900000, Isr (Some (demo_pin BUTTON_INTERRUPT_MODE_BOTH_EDGES 0)),
           at_tick 4294905000, Isr (Some (demo_pin BUTTON_INTERRUPT_MODE_BOTH_EDGES 0))]
        initial_driver released) 0 = Some (4294520002, 1)
   \<and> fst (get_current_tick (snd (get_current_tick (snd (get_current_tick
          (released\<lparr>clock := 4294967294\<rparr>)))))) = 0
   \<and> pending_by
     (run [Initialize (Some (demo_api BUTTON_INTERRUPT_MODE_BOTH_EDGES)),
           at_tick 4294500000, Isr (Some (demo_pin BUTTON_INTERRUPT_MODE_BOTH_EDGES 0)),
           at_tick 4294505000, Isr (Some (demo_pin BUTTON_INTERRUPT_MODE_BOTH_EDGES 0)),
           at_tick 4294520000, Process,
           at_tick 4294900000, Isr (Some (demo_pin BUTTON_INTERRUPT_MODE_BOTH_EDGES 0)),
           at_tick 4294905000, Isr (Some (demo_pin BUTTON_INTERRUPT_MODE_BOTH_EDGES 0)),
           at_tick 4294967294, Process]
        initial_driver released) 0 = Some (4294520002, 2)
   \<and> dispatched_by
     (run [Initialize (Some (demo_api BUTTON_INTERRUPT_MODE_BOTH_EDGES)),
           at_tick 4294500000, Isr (Some (demo_pin BUTTON_INTERRUPT_MODE_BOTH_EDGES 0)),
           at_tick 4294505000, Isr (Some (demo_pin BUTTON_INTERRUPT_MODE_BOTH_EDGES 0)),
           at_tick 4294520000, Process,
           at_tick 4294900000, Isr (Some (demo_pin BUTTON_INTERRUPT_MODE_BOTH_EDGES 0)),
           at_tick 4294905000, Isr (Some (demo_pin BUTTON_INTERRUPT_MODE_BOTH_EDGES 0)),
           at_tick 4294967294, Process]
        initial_driver released) = Some []
   \<and> dispatched_by
     (run [Initialize (Some (demo_api BUTTON_INTERRUPT_MODE_BOTH_EDGES)),
           at_tick 4294500000, Isr (Some (demo_pin BUTTON_INTERRUPT_MODE_BOTH_EDGES 0)),
           at_tick 4294505000, Isr (Some (demo_pin BUTTON_INTERRUPT_MODE_BOTH_EDGES 0)),
           at_tick 4294520000, Process,
           at_tick 4294900000, Isr (Some (demo_pin BUTTON_INTERRUPT_MODE_BOTH_EDGES 0)),
           at_tick 4294905000, Isr (Some (demo_pin BUTTON_INTERRUPT_MODE_BOTH_EDGES 0)),
           at_tick 4294967294, Process,
           at_tick 200000, Process]
        initial_driver released) = Some [(BUTTON_DOUBLE_PRESS, 0)]"
  by (simp add: demo_defs driver_defs Let_def)

text \<open>
  C10, amended: when the tick source returns 0 at the moment a short press is confirmed,
  \<^verbatim>\<open>detect_the_press\<close> still increments the counter and clears both timestamps, and returns
  0, so \<^verbatim>\<open>desicion_by_pressed_count\<close> records no tick for that press. When no confirmation
  tick is recorded for the line from an earlier press, every call of
  \<^verbatim>\<open>desicion_by_pressed_count\<close> in which \<^verbatim>\<open>detect_the_press\<close> returns 0 (that call, and each
  later one until a confirmation returns a tick that is not 0) commits nothing: it stores
  the counter, dispatches no normal and no double press, and leaves the confirmation tick
  unset.
\<close>

theorem zero_tick_confirmation:
  assumes idx: "index < BUTTON_MAX"
    and el: "fp_tick_elapsed a = Some el"
    and now: "fp_get_current_tick a = Some now"
    and cb: "fp_event_callback a = Some cb"
  shows "(first (pressed_tick s index) \<noteq> 0 \<and> last_tick (pressed_tick s index) \<noteq> 0
          \<and> now w = (t1, w1) \<and> now w1 = (t2, w2) \<and> now w2 = (0, w3)
          \<and> el (last_tick (pressed_tick s index)) t1 > debounce_us a * tick_count_in_1us a
          \<and> \<not> el (first (pressed_tick s index)) (last_tick (pressed_tick s index))
                > long_press_us a * tick_count_in_1us a
          \<and> el (last_tick (pressed_tick s index)) t2 < 500000 * tick_count_in_1us a
        \<longrightarrow> detect_the_press a index count s w
              = Inr (0, count + 1,
                     s\<lparr>pressed_tick := (pressed_tick s)(index := \<lparr>first = 0, last_tick = 0\<rparr>)\<rparr>, w3))
    \<and> (record_last_tick s index = 0
        \<and> detect_the_press a index (press_count s index) s w = Inr (0, c, s1, w')
        \<longrightarrow> desicion_by_pressed_count a index s w
              = Inr (s1\<lparr>check_last_tick := 0, press_count := (press_count s)(index := c)\<rparr>, w')
            \<and> record_last_tick s1 index = 0)"
proof (intro conjI impI)
  assume h: "first (pressed_tick s index) \<noteq> 0 \<and> last_tick (pressed_tick s index) \<noteq> 0
          \<and> now w = (t1, w1) \<and> now w1 = (t2, w2) \<and> now w2 = (0, w3)
          \<and> el (last_tick (pressed_tick s index)) t1 > debounce_us a * tick_count_in_1us a
          \<and> \<not> el (first (pressed_tick s index)) (last_tick (pressed_tick s index))
                > long_press_us a * tick_count_in_1us a
          \<and> el (last_tick (pressed_tick s index)) t2 < 500000 * tick_count_in_1us a"
  show "detect_the_press a index count s w
      = Inr (0, count + 1,
             s\<lparr>pressed_tick := (pressed_tick s)(index := \<lparr>first = 0, last_tick = 0\<rparr>)\<rparr>, w3)"
    using idx el now cb h
    by (simp add: detect_the_press_def TICK_DIFF_def clear_ticks_def
        DETECT_SINGLE_BUTTON_PRESS_IN_US_def)
next
  assume h: "record_last_tick s index = 0
        \<and> detect_the_press a index (press_count s index) s w = Inr (0, c, s1, w')"
  then have unset: "record_last_tick s index = 0"
    and det: "detect_the_press a index (press_count s index) s w = Inr (0, c, s1, w')"
    by simp_all
  have fr: "record_last_tick s1 = record_last_tick s" "press_count s1 = press_count s"
    using detect_the_press_frame [OF det] by simp_all
  show "desicion_by_pressed_count a index s w
      = Inr (s1\<lparr>check_last_tick := 0, press_count := (press_count s)(index := c)\<rparr>, w')"
    using idx unset
    by (simp add: desicion_by_pressed_count_def det commit_pressed_count_def fr)
  show "record_last_tick s1 index = 0"
    using unset fr by simp
qed


theorem zero_tick_confirmation_witness:
  "detect_the_press (demo_api BUTTON_INTERRUPT_MODE_BOTH_EDGES) 0 0
      (demo_driver BUTTON_INTERRUPT_MODE_BOTH_EDGES 4294900000 4294905000 0 0)
      (released\<lparr>clock := 4294967294\<rparr>)
    = Inr (0, 1, demo_driver BUTTON_INTERRUPT_MODE_BOTH_EDGES 0 0 0 0, released\<lparr>clock := 1\<rparr>)
   \<and> desicion_by_pressed_count (demo_api BUTTON_INTERRUPT_MODE_BOTH_EDGES) 0
      (demo_driver BUTTON_INTERRUPT_MODE_BOTH_EDGES 4294900000 4294905000 0 0)
      (released\<lparr>clock := 4294967294\<rparr>)
    = Inr (demo_driver BUTTON_INTERRUPT_MODE_BOTH_EDGES 0 0 0 1, released\<lparr>clock := 1\<rparr>)
   \<and> desicion_by_pressed_count (demo_api BUTTON_INTERRUPT_MODE_BOTH_EDGES) 0
      (demo_driver BUTTON_INTERRUPT_MODE_BOTH_EDGES 0 0 0 1) (released\<lparr>clock := 900000\<rparr>)
    = Inr (demo_driver BUTTON_INTERRUPT_MODE_BOTH_EDGES 0 0 0 1, released\<lparr>clock := 900000\<rparr>)"
proof -
  let ?m = "BUTTON_INTERRUPT_MODE_BOTH_EDGES"
  let ?a = "demo_api ?m"
  let ?d = "demo_driver ?m 4294900000 4294905000 0 0"
  have caps: "(0::nat) < BUTTON_MAX" "fp_tick_elapsed ?a = Some tick_elapsed"
    "fp_get_current_tick ?a = Some get_current_tick"
    "fp_event_callback ?a = Some button_event_callback"
    by (simp_all add: demo_defs)
  have det: "detect_the_press ?a 0 c ?d (released\<lparr>clock := 4294967294\<rparr>)
      = Inr (0, c + 1, demo_driver ?m 0 0 0 0, released\<lparr>clock := 1\<rparr>)" for c
    using zero_tick_confirmation [OF caps, THEN conjunct1,
        of ?d "released\<lparr>clock := 4294967294\<rparr>" 4294967294 "released\<lparr>clock := 4294967295\<rparr>"
          4294967295 "released\<lparr>clock := 0\<rparr>" "released\<lparr>clock := 1\<rparr>" c]
    by (simp add: demo_defs)
  have dec: "desicion_by_pressed_count ?a 0 ?d (released\<lparr>clock := 4294967294\<rparr>)
      = Inr (demo_driver ?m 0 0 0 1, released\<lparr>clock := 1\<rparr>)"
    using zero_tick_confirmation [OF caps, THEN conjunct2,
        of ?d "released\<lparr>clock := 4294967294\<rparr>" 1 "demo_driver ?m 0 0 0 0"
          "released\<lparr>clock := 1\<rparr>"] det [of 0]
    by (simp add: demo_defs)
  have idle: "detect_the_press ?a 0 1 (demo_driver ?m 0 0 0 1) w
      = Inr (0, 1, demo_driver ?m 0 0 0 1, w)" for w
    by (simp add: detect_the_press_def demo_defs)
  have later: "desicion_by_pressed_count ?a 0 (demo_driver ?m 0 0 0 1) (released\<lparr>clock := 900000\<rparr>)
      = Inr (demo_driver ?m 0 0 0 1, released\<lparr>clock := 900000\<rparr>)"
    using zero_tick_confirmation [OF caps, THEN conjunct2,
        of "demo_driver ?m 0 0 0 1" "released\<lparr>clock := 900000\<rparr>" 1 "demo_driver ?m 0 0 0 1"
          "released\<lparr>clock := 900000\<rparr>"] idle
    by (simp add: demo_defs)
  from det [of 0] dec later show ?thesis by simp
qed

end
